theory Spec2Isabelle
  imports Main "HOL-Library.Word"
begin

section \<open>LD2410 mmWave radar driver (ld2410.py)\<close>

text \<open>
  A shallow embedding of the Python driver. Python \<open>bytes\<close> are lists of 8-bit
  words, Python integers are \<open>int\<close>, and every exception the modelled code can
  raise is a value of the type \<open>error\<close>.
\<close>

subsection \<open>Bytes, integers and errors\<close>

type_synonym byte = "8 word"

text \<open>
  \<open>LD2410Exception\<close> carries the message of the exception. \<open>OverflowError\<close> is
  what \<open>int.to_bytes\<close> raises when the value does not fit, \<open>IndexError\<close> what
  indexing a \<open>bytes\<close> object out of range raises.
\<close>

datatype error = LD2410Exception string | OverflowError | IndexError

text \<open>Decimal rendering of a non-negative integer inside an f-string.\<close>

definition digit_char :: "nat \<Rightarrow> char" where
  "digit_char d = char_of (48 + d)"

fun str_nat :: "nat \<Rightarrow> string" where
  "str_nat n = (if n < 10 then [digit_char n] else str_nat (n div 10) @ [digit_char (n mod 10)])"

declare str_nat.simps [simp del]

text \<open>An exception raised by the first computation skips the rest.\<close>

definition bind_err :: "error + 'a \<Rightarrow> ('a \<Rightarrow> error + 'b) \<Rightarrow> error + 'b" where
  "bind_err m f = (case m of Inl e \<Rightarrow> Inl e | Inr x \<Rightarrow> f x)"

text \<open>\<open>n.to_bytes(length, byteorder="little", signed=False)\<close>.\<close>

fun little_digits :: "nat \<Rightarrow> int \<Rightarrow> byte list" where
  "little_digits 0 n = []"
| "little_digits (Suc k) n = word_of_int (n mod 256) # little_digits k (n div 256)"

definition to_bytes :: "int \<Rightarrow> nat \<Rightarrow> error + byte list" where
  "to_bytes n len = (if n < 0 \<or> 256 ^ len \<le> n then Inl OverflowError else Inr (little_digits len n))"

text \<open>\<open>int.from_bytes(inp, byteorder="little", signed=False)\<close>, for any length.\<close>

fun from_bytes :: "byte list \<Rightarrow> int" where
  "from_bytes [] = 0"
| "from_bytes (b # bs) = uint b + 256 * from_bytes bs"

text \<open>\<open>seq[i]\<close> for a non-negative index, and the slice \<open>seq[lo:hi]\<close>.\<close>

definition getitem :: "byte list \<Rightarrow> nat \<Rightarrow> error + int" where
  "getitem seq i = (if i < length seq then Inr (uint (seq ! i)) else Inl IndexError)"

definition slice_of :: "byte list \<Rightarrow> nat \<Rightarrow> nat \<Rightarrow> byte list" where
  "slice_of seq lo hi = take (hi - lo) (drop lo seq)"

text \<open>The list comprehension \<open>[seq[f(i)] for i in ...]\<close>: it stops at the first index that raises.\<close>

fun getitems :: "byte list \<Rightarrow> nat list \<Rightarrow> error + int list" where
  "getitems seq [] = Inr []"
| "getitems seq (i # js) =
     bind_err (getitem seq i) (\<lambda>v. bind_err (getitems seq js) (\<lambda>vs. Inr (v # vs)))"

subsection \<open>Module-level helpers\<close>

fun list_ints_to_bytes_loop :: "byte list \<Rightarrow> int list \<Rightarrow> error + byte list" where
  "list_ints_to_bytes_loop res [] = Inr res"
| "list_ints_to_bytes_loop res (b # inp) =
     bind_err (to_bytes b 1) (\<lambda>x. list_ints_to_bytes_loop (res @ x) inp)"

definition list_ints_to_bytes :: "int list \<Rightarrow> error + byte list" where
  "list_ints_to_bytes inp = list_ints_to_bytes_loop [] inp"

definition bytes_to_list_ints :: "byte list \<Rightarrow> int list" where
  "bytes_to_list_ints inp = map uint inp"

definition byte_pair_to_int :: "byte list \<Rightarrow> int" where
  "byte_pair_to_int inp = from_bytes inp"

subsection \<open>Thresholds and readings\<close>

record thresholds =
  moving_thr :: "int option list option"
  static_thr :: "int option list option"

text \<open>
  The time stamp of a reading is \<open>datetime.now()\<close> at construction; the clock
  value is a parameter of the model.
\<close>

type_synonym datetime = nat

record reading =
  timestamp :: datetime
  moving :: "int list"
  static :: "int list"
  target_state :: int
  moving_target_range :: int
  moving_target_energy :: int
  static_target_range :: int
  static_target_energy :: int
  detection_distance :: int
  max_moving_distance :: int
  max_static_distance :: int

text \<open>\<open>Reading.compare\<close>: the body is the placeholder \<open>return False\<close>.\<close>

definition compare :: "reading \<Rightarrow> thresholds option \<Rightarrow> bool" where
  "compare self thr = False"

text \<open>
  \<open>Reading.new_from_bytes\<close>. The two comprehensions and the constructor
  arguments are evaluated in the order of the source; each index can raise.
\<close>

definition new_from_bytes :: "datetime \<Rightarrow> byte list \<Rightarrow> error + reading" where
  "new_from_bytes now seq =
     bind_err (getitems seq (map (\<lambda>i. 11 + i) [0..<12])) (\<lambda>movs.
     bind_err (getitems seq (map (\<lambda>i. 23 + i) [0..<12])) (\<lambda>stats.
     bind_err (getitem seq 0) (\<lambda>ts.
     bind_err (getitem seq 3) (\<lambda>mte.
     bind_err (getitem seq 6) (\<lambda>ste.
     bind_err (getitem seq 9) (\<lambda>mmd.
     bind_err (getitem seq 10) (\<lambda>msd.
       Inr \<lparr> timestamp = now,
             moving = movs,
             static = stats,
             target_state = ts,
             moving_target_range = byte_pair_to_int (slice_of seq 1 3),
             moving_target_energy = mte,
             static_target_range = byte_pair_to_int (slice_of seq 4 6),
             static_target_energy = ste,
             detection_distance = byte_pair_to_int (slice_of seq 7 9),
             max_moving_distance = mmd,
             max_static_distance = msd \<rparr>)))))))"

subsection \<open>The serial port\<close>

text \<open>
  The driver talks to the sensor through \<open>self.serial\<close>. The model of the port keeps
  what the driver has written and what the line will deliver: a list of events, each
  a byte arriving or a silence that outlasts the read timeout. After the last event
  the line stays silent, so every later read times out.
\<close>

datatype rx = Rx byte | Timeout

record serial_port =
  rx_pending :: "rx list"
  tx_written :: "byte list"
  timeout :: nat

text \<open>
  \<open>serial.read(n)\<close> returns as soon as \<open>n\<close> bytes have arrived, or with the bytes
  received so far when the timeout elapses first.
\<close>

fun read_pending :: "nat \<Rightarrow> rx list \<Rightarrow> byte list \<times> rx list" where
  "read_pending 0 evs = ([], evs)"
| "read_pending (Suc n) [] = ([], [])"
| "read_pending (Suc n) (Timeout # evs) = ([], evs)"
| "read_pending (Suc n) (Rx b # evs) = (b # fst (read_pending n evs), snd (read_pending n evs))"

definition serial_read :: "nat \<Rightarrow> serial_port \<Rightarrow> byte list \<times> serial_port" where
  "serial_read n port =
     (fst (read_pending n (rx_pending port)),
      port\<lparr>rx_pending := snd (read_pending n (rx_pending port))\<rparr>)"

definition serial_write :: "byte list \<Rightarrow> serial_port \<Rightarrow> serial_port" where
  "serial_write data port = port\<lparr>tx_written := tx_written port @ data\<rparr>"

text \<open>
  \<open>serial.reset_input_buffer()\<close> drops what the operating system has buffered: the
  first \<open>buffered\<close> events of the line, a number the driver does not control.
\<close>

definition reset_input_buffer :: "nat \<Rightarrow> serial_port \<Rightarrow> serial_port" where
  "reset_input_buffer buffered port = port\<lparr>rx_pending := drop buffered (rx_pending port)\<rparr>"

subsection \<open>Frames\<close>

text \<open>
  The four class constants, as the byte strings that \<open>list_ints_to_bytes\<close> makes
  of the lists in the source (lemma \<open>class_constants\<close>).
\<close>

definition COMMAND_PREAMBLE :: "byte list" where
  "COMMAND_PREAMBLE = [0xFD, 0xFC, 0xFB, 0xFA]"

definition COMMAND_POSTAMBLE :: "byte list" where
  "COMMAND_POSTAMBLE = [0x04, 0x03, 0x02, 0x01]"

definition REPORTING_PREAMBLE :: "byte list" where
  "REPORTING_PREAMBLE = [0xF4, 0xF3, 0xF2, 0xF1]"

definition REPORTING_POSTAMBLE :: "byte list" where
  "REPORTING_POSTAMBLE = [0xF8, 0xF7, 0xF6, 0xF5]"

definition read_bytes :: "nat \<Rightarrow> serial_port \<Rightarrow> byte list \<times> serial_port" where
  "read_bytes len port = serial_read len port"

text \<open>
  \<open>_tx_sequence\<close> takes a \<open>bytes\<close> object or a list of integers. The preamble is
  already written when the conversion of the length raises.
\<close>

datatype sequence = Bytes "byte list" | Ints "int list"

definition tx_sequence :: "sequence \<Rightarrow> serial_port \<Rightarrow> (error + unit) \<times> serial_port" where
  "tx_sequence sequence port =
     (case (case sequence of Bytes b \<Rightarrow> Inr b | Ints l \<Rightarrow> list_ints_to_bytes l) of
        Inl e \<Rightarrow> (Inl e, port)
      | Inr payload \<Rightarrow>
          (case to_bytes (int (length payload)) 2 of
             Inl e \<Rightarrow> (Inl e, serial_write COMMAND_PREAMBLE port)
           | Inr length_b \<Rightarrow>
               (Inr (),
                serial_write COMMAND_POSTAMBLE
                  (serial_write payload
                    (serial_write length_b
                      (serial_write COMMAND_PREAMBLE port))))))"

text \<open>
  The preamble search of \<open>_read_any_message\<close>. Its three local variables form the
  state of the scanner; \<open>preamble_step\<close> is the body of the loop for one received
  byte \<open>c\<close>.
\<close>

record scanner =
  preamble_target_no :: nat
  preamble :: "byte list"
  target_preamble :: "byte list"

datatype step = Next scanner | Break scanner | Raise error

definition preamble_step :: "byte \<Rightarrow> scanner \<Rightarrow> step" where
  "preamble_step c st =
     (if preamble_target_no st = 0 then
        (if c = COMMAND_PREAMBLE ! 0 \<or> c = REPORTING_PREAMBLE ! 0 then
           Next \<lparr> preamble_target_no = preamble_target_no st + 1,
                  preamble = preamble st @ [c],
                  target_preamble =
                    (if c = REPORTING_PREAMBLE ! 0 then REPORTING_PREAMBLE else COMMAND_PREAMBLE) \<rparr>
         else Next st)
      else if \<not> preamble_target_no st < length (target_preamble st) then Raise IndexError
      else if \<not> c = target_preamble st ! preamble_target_no st then
        Next \<lparr> preamble_target_no = 0, preamble = [], target_preamble = [] \<rparr>
      else if preamble_target_no st + 1 = 4 then
        Break \<lparr> preamble_target_no = preamble_target_no st + 1,
                preamble = preamble st @ [c],
                target_preamble = target_preamble st \<rparr>
      else
        Next \<lparr> preamble_target_no = preamble_target_no st + 1,
               preamble = preamble st @ [c],
               target_preamble = target_preamble st \<rparr>)"

text \<open>The values of the three locals before the loop.\<close>

definition initial_scanner :: scanner where
  "initial_scanner = \<lparr> preamble_target_no = 0, preamble = [], target_preamble = [] \<rparr>"

text \<open>
  The \<open>while True\<close> loop reads one byte at a time and has no exit of its own on a
  silent line: a timed-out read is logged and the loop goes on. Not returning is
  the value \<open>None\<close>.
\<close>

partial_function (option) preamble_loop ::
  "scanner \<Rightarrow> serial_port \<Rightarrow> ((error + byte list) \<times> serial_port) option" where
  "preamble_loop st port =
     (if length (fst (serial_read 1 port)) = 0 then preamble_loop st (snd (serial_read 1 port))
      else
        (case preamble_step (fst (serial_read 1 port) ! 0) st of
           Next st' \<Rightarrow> preamble_loop st' (snd (serial_read 1 port))
         | Break st' \<Rightarrow> Some (Inr (preamble st'), snd (serial_read 1 port))
         | Raise e \<Rightarrow> Some (Inl e, snd (serial_read 1 port))))"

declare preamble_loop.simps [code]

text \<open>The fixed-size reads that follow the preamble (length, payload, postamble).\<close>

definition read_frame_rest ::
  "byte list \<Rightarrow> serial_port \<Rightarrow> (error + byte list \<times> byte list \<times> byte list) \<times> serial_port" where
  "read_frame_rest preamble_found port =
     (let (length_raw, port1) = read_bytes 2 port in
      if \<not> length length_raw = 2 then
        (Inl (LD2410Exception
           ''Didn't get two bytes for the message length in the expected time''), port1)
      else
        let len = nat (byte_pair_to_int length_raw);
            (payload, port2) = read_bytes len port1 in
        if \<not> length payload = len then
          (Inl (LD2410Exception
             (''Payload was short, only received : '' @ str_nat (length payload) @ '' bytes'')),
           port2)
        else
          let (postamble, port3) = read_bytes 4 port2 in
          if \<not> length postamble = 4 then
            (Inl (LD2410Exception ''Failed to receive the full 4 byte postamble''), port3)
          else (Inr (preamble_found, payload, postamble), port3))"

definition read_any_message ::
  "serial_port \<Rightarrow> ((error + byte list \<times> byte list \<times> byte list) \<times> serial_port) option" where
  "read_any_message port =
     (case preamble_loop initial_scanner port of
        None \<Rightarrow> None
      | Some (Inl e, port') \<Rightarrow> Some (Inl e, port')
      | Some (Inr preamble_found, port') \<Rightarrow> Some (read_frame_rest preamble_found port'))"

text \<open>
  What the line carries. A frame is the triple \<open>_read_any_message\<close> returns:
  preamble, payload, postamble. \<open>frame_bytes\<close> is its wire form, with the length
  of the payload as two little-endian bytes; \<open>well_formed\<close> frames start with one
  of the two preambles, have a payload length that fits in the two bytes, and end
  with four bytes.
\<close>

type_synonym frame = "byte list \<times> byte list \<times> byte list"

fun frame_bytes :: "frame \<Rightarrow> byte list" where
  "frame_bytes (pre, payload, post) = pre @ little_digits 2 (int (length payload)) @ payload @ post"

fun well_formed :: "frame \<Rightarrow> bool" where
  "well_formed (pre, payload, post) =
     ((pre = COMMAND_PREAMBLE \<or> pre = REPORTING_PREAMBLE)
      \<and> length payload < 65536 \<and> length post = 4)"

text \<open>
  The scanner run over a stretch of line events, without the port: the state it is
  left in, or where it stopped.
\<close>

fun scan_events :: "scanner \<Rightarrow> rx list \<Rightarrow> step" where
  "scan_events st [] = Next st"
| "scan_events st (Timeout # evs) = scan_events st evs"
| "scan_events st (Rx c # evs) =
     (case preamble_step c st of
        Next st' \<Rightarrow> scan_events st' evs
      | Break st' \<Rightarrow> Break st'
      | Raise e \<Rightarrow> Raise e)"

subsection \<open>Receiving a frame of the expected kind\<close>

definition expected_preamble :: "bool \<Rightarrow> byte list" where
  "expected_preamble report_expected =
     (if report_expected then REPORTING_PREAMBLE else COMMAND_PREAMBLE)"

definition expected_postamble :: "bool \<Rightarrow> byte list" where
  "expected_postamble report_expected =
     (if report_expected then REPORTING_POSTAMBLE else COMMAND_POSTAMBLE)"

definition retries_exhausted :: "bool \<Rightarrow> nat \<Rightarrow> error" where
  "retries_exhausted report_expected retries =
     LD2410Exception
       (''Failed to get a message of type ''
        @ (if report_expected then ''report'' else ''command ack'')
        @ '' after '' @ str_nat retries @ '' attempts'')"

text \<open>The test \<open>preamble==expected_preamble and postamble==expected_postamble\<close>.\<close>

fun kind_matches :: "bool \<Rightarrow> frame \<Rightarrow> bool" where
  "kind_matches report_expected (pre, payload, post) =
     (pre = expected_preamble report_expected \<and> post = expected_postamble report_expected)"

text \<open>
  The \<open>for try_no in range(retries)\<close> loop of \<open>_rx_sequence\<close>, with the number of
  iterations left as the recursion argument. An exception of \<open>_read_any_message\<close>
  is not caught.
\<close>

fun rx_sequence_for ::
  "bool \<Rightarrow> nat \<Rightarrow> nat \<Rightarrow> serial_port \<Rightarrow> ((error + byte list) \<times> serial_port) option" where
  "rx_sequence_for report_expected retries 0 port =
     Some (Inl (retries_exhausted report_expected retries), port)"
| "rx_sequence_for report_expected retries (Suc left) port =
     (case read_any_message port of
        None \<Rightarrow> None
      | Some (Inl e, port') \<Rightarrow> Some (Inl e, port')
      | Some (Inr (preamble_rx, payload, postamble), port') \<Rightarrow>
          if kind_matches report_expected (preamble_rx, payload, postamble)
          then Some (Inr payload, port')
          else rx_sequence_for report_expected retries left port')"

definition rx_sequence ::
  "bool \<Rightarrow> nat \<Rightarrow> nat \<Rightarrow> serial_port \<Rightarrow> ((error + byte list) \<times> serial_port) option" where
  "rx_sequence report_expected retries tmo port =
     rx_sequence_for report_expected retries retries (port\<lparr>timeout := tmo\<rparr>)"

subsection \<open>The configuration commands\<close>

text \<open>
  Each command writes its frame, waits for a command frame and compares the payload
  with the required acknowledgement. \<open>command_ack\<close> is the shape the four checked
  commands share; the log calls are left out.
\<close>

definition command_ack ::
  "int list \<Rightarrow> nat \<Rightarrow> int list \<Rightarrow> string \<Rightarrow> serial_port \<Rightarrow> ((error + unit) \<times> serial_port) option" where
  "command_ack command retries ack message port =
     (case tx_sequence (Ints command) port of
        (Inl e, port1) \<Rightarrow> Some (Inl e, port1)
      | (Inr u, port1) \<Rightarrow>
          (case rx_sequence False retries 2 port1 of
             None \<Rightarrow> None
           | Some (Inl e, port2) \<Rightarrow> Some (Inl e, port2)
           | Some (Inr resp, port2) \<Rightarrow>
               (case list_ints_to_bytes ack of
                  Inl e \<Rightarrow> Some (Inl e, port2)
                | Inr ack_bytes \<Rightarrow>
                    if \<not> resp = ack_bytes then Some (Inl (LD2410Exception message), port2)
                    else Some (Inr (), port2))))"

definition enter_configuration_mode :: "serial_port \<Rightarrow> ((error + unit) \<times> serial_port) option" where
  "enter_configuration_mode port =
     command_ack [0xFF, 0x00, 0x01, 0x00] 10 [0xFF, 0x01, 0x00, 0x00, 0x01, 0x00, 0x40, 0x00]
       ''Failed to get ack to entering config mode'' port"

definition leave_configuration_mode :: "serial_port \<Rightarrow> ((error + unit) \<times> serial_port) option" where
  "leave_configuration_mode port =
     command_ack [0xFE, 0x00] 5 [0xFE, 0x01, 0x00, 0x00]
       ''Failed to get ack to leaving config mode'' port"

definition send_reset :: "serial_port \<Rightarrow> ((error + unit) \<times> serial_port) option" where
  "send_reset port =
     command_ack [0xA3, 0x00] 3 [0xA3, 0x01, 0x00, 0x00]
       ''Failed to get an ack on the attempt to reset'' port"

definition start_engineering_mode :: "serial_port \<Rightarrow> ((error + unit) \<times> serial_port) option" where
  "start_engineering_mode port =
     command_ack [0x62, 0x00] 10 [0x62, 0x01, 0x00, 0x00]
       ''Failed to get the correct ack for entering engineering mode, instead rx'ed : '' port"

definition request_firmware_version :: "serial_port \<Rightarrow> ((error + unit) \<times> serial_port) option" where
  "request_firmware_version port =
     (case tx_sequence (Ints [0xA0, 0x00]) port of
        (Inl e, port1) \<Rightarrow> Some (Inl e, port1)
      | (Inr u, port1) \<Rightarrow>
          (case rx_sequence False 3 2 port1 of
             None \<Rightarrow> None
           | Some (Inl e, port2) \<Rightarrow> Some (Inl e, port2)
           | Some (Inr resp, port2) \<Rightarrow> Some (Inr (), port2)))"

definition flush_serial :: "nat \<Rightarrow> serial_port \<Rightarrow> serial_port" where
  "flush_serial buffered port = reset_input_buffer buffered port"

text \<open>Sequencing of two steps: an exception or a step that never returns ends the sequence.\<close>

definition and_then ::
  "((error + unit) \<times> serial_port) option \<Rightarrow> (serial_port \<Rightarrow> ((error + unit) \<times> serial_port) option)
     \<Rightarrow> ((error + unit) \<times> serial_port) option" where
  "and_then r step2 =
     (case r of
        None \<Rightarrow> None
      | Some (Inl e, port) \<Rightarrow> Some (Inl e, port)
      | Some (Inr u, port) \<Rightarrow> step2 port)"

text \<open>
  The handshake at the start of \<open>run\<close>. \<open>buffered\<close> is the number of line events
  that the flush after the two-second pause discards.
\<close>

definition handshake :: "nat \<Rightarrow> serial_port \<Rightarrow> ((error + unit) \<times> serial_port) option" where
  "handshake buffered port =
     and_then (enter_configuration_mode port) (\<lambda>port.
     and_then (send_reset port) (\<lambda>port.
     and_then (enter_configuration_mode (flush_serial buffered port)) (\<lambda>port.
     and_then (request_firmware_version port) (\<lambda>port.
     and_then (start_engineering_mode port) (\<lambda>port.
       leave_configuration_mode port)))))"

subsection \<open>Readings, the buffer and the worker\<close>

text \<open>
  \<open>_get_next_reading\<close> on a real port (the branch for the port name \<open>"test"\<close> is
  not modelled). A report whose payload is not 35 bytes long is dropped and the
  next one is read.
\<close>

partial_function (option) get_next_reading ::
  "datetime \<Rightarrow> serial_port \<Rightarrow> ((error + reading) \<times> serial_port) option" where
  "get_next_reading now port =
     (case rx_sequence True 1 2 port of
        None \<Rightarrow> None
      | Some (Inl e, port') \<Rightarrow> Some (Inl e, port')
      | Some (Inr seq, port') \<Rightarrow>
          if length seq = 35 then Some (new_from_bytes now seq, port')
          else get_next_reading now port')"

text \<open>\<open>collections.deque(maxlen=...)\<close> and its \<open>append\<close>, which drops from the left when full.\<close>

record 'a deque =
  maxlen :: nat
  items :: "'a list"

definition deque_new :: "nat \<Rightarrow> 'a deque" where
  "deque_new n = \<lparr> maxlen = n, items = [] \<rparr>"

definition deque_append :: "'a \<Rightarrow> 'a deque \<Rightarrow> 'a deque" where
  "deque_append x d =
     d\<lparr>items := drop (length (items d @ [x]) - maxlen d) (items d @ [x])\<rparr>"

text \<open>
  \<open>get_latest\<close> polls until the buffer is not empty; on an empty buffer that the
  worker no longer fills it does not return, which is the value \<open>None\<close>.
\<close>

definition get_latest :: "'a deque \<Rightarrow> 'a option" where
  "get_latest buffer = (if length (items buffer) = 0 then None else Some (last (items buffer)))"

record ld2410 =
  thresholds_set :: "thresholds option"
  running :: bool
  stopped :: bool
  buffer :: "reading deque"
  serial :: serial_port
  present :: "bool option"

definition test_presence :: "ld2410 \<Rightarrow> reading \<Rightarrow> bool" where
  "test_presence self rd = compare rd (thresholds_set self)"

text \<open>
  The worker's main loop. \<open>running\<close> is cleared by another thread; the model takes
  the clock values of the iterations that run before that as a list, one per
  iteration.
\<close>

fun reporting_loop :: "datetime list \<Rightarrow> ld2410 \<Rightarrow> ((error + unit) \<times> ld2410) option" where
  "reporting_loop [] self = Some (Inr (), self)"
| "reporting_loop (now # later) self =
     (case get_next_reading now (serial self) of
        None \<Rightarrow> None
      | Some (Inl e, port) \<Rightarrow> Some (Inl e, self\<lparr>serial := port\<rparr>)
      | Some (Inr rd, port) \<Rightarrow>
          reporting_loop later
            (self\<lparr> serial := port,
                   buffer := deque_append rd (buffer self),
                   present := (if thresholds_set self \<noteq> None
                               then Some (test_presence self rd) else present self) \<rparr>))"

definition run :: "nat \<Rightarrow> datetime list \<Rightarrow> ld2410 \<Rightarrow> ((error + unit) \<times> ld2410) option" where
  "run buffered clock self =
     (case handshake buffered (serial (self\<lparr>running := True, stopped := False\<rparr>)) of
        None \<Rightarrow> None
      | Some (Inl e, port) \<Rightarrow> Some (Inl e, self\<lparr>running := True, stopped := False, serial := port\<rparr>)
      | Some (Inr u, port) \<Rightarrow>
          (case reporting_loop clock (self\<lparr>running := True, stopped := False, serial := port\<rparr>) of
             None \<Rightarrow> None
           | Some (Inl e, self') \<Rightarrow> Some (Inl e, self')
           | Some (Inr u', self') \<Rightarrow> Some (Inr (), self'\<lparr>running := False, stopped := True\<rparr>)))"

section \<open>Properties\<close>

subsection \<open>Exceptions and conversions\<close>

lemma bind_err_Inr [simp]: "bind_err (Inr x) f = f x"
  by (simp add: bind_err_def)

lemma bind_err_Inl [simp]: "bind_err (Inl e) f = Inl e"
  by (simp add: bind_err_def)

lemma to_bytes_one: "0 \<le> b \<Longrightarrow> b \<le> 255 \<Longrightarrow> to_bytes b (Suc 0) = Inr [word_of_int b]"
  by (simp add: to_bytes_def)

lemma list_ints_to_bytes_loop_in_range:
  "\<forall>x\<in>set xs. 0 \<le> x \<and> x \<le> 255 \<Longrightarrow>
     list_ints_to_bytes_loop res xs = Inr (res @ map word_of_int xs)"
proof (induction xs arbitrary: res)
  case Nil
  then show ?case by simp
next
  case (Cons x xs)
  then have "to_bytes x (Suc 0) = Inr [word_of_int x]"
    by (simp add: to_bytes_one)
  with Cons show ?case by simp
qed

lemma list_ints_to_bytes_in_range:
  "\<forall>x\<in>set xs. 0 \<le> x \<and> x \<le> 255 \<Longrightarrow> list_ints_to_bytes xs = Inr (map word_of_int xs)"
  by (simp add: list_ints_to_bytes_def list_ints_to_bytes_loop_in_range)

lemma from_bytes_little_digits:
  "0 \<le> n \<Longrightarrow> n < 256 ^ k \<Longrightarrow> from_bytes (little_digits k n) = n"
proof (induction k arbitrary: n)
  case 0
  then show ?case by simp
next
  case (Suc k)
  have "n div 256 < 256 ^ k" using Suc.prems by simp
  moreover have "0 \<le> n div 256" using Suc.prems by simp
  ultimately have "from_bytes (little_digits k (n div 256)) = n div 256"
    by (rule Suc.IH [rotated])
  moreover have "uint (word_of_int (n mod 256) :: byte) = n mod 256"
    by (simp add: uint_word_of_int take_bit_eq_mod)
  ultimately show ?case by simp
qed

lemma class_constants:
  "list_ints_to_bytes [0xFD, 0xFC, 0xFB, 0xFA] = Inr COMMAND_PREAMBLE"
  "list_ints_to_bytes [0x04, 0x03, 0x02, 0x01] = Inr COMMAND_POSTAMBLE"
  "list_ints_to_bytes [0xF4, 0xF3, 0xF2, 0xF1] = Inr REPORTING_PREAMBLE"
  "list_ints_to_bytes [0xF8, 0xF7, 0xF6, 0xF5] = Inr REPORTING_POSTAMBLE"
  by (simp_all add: list_ints_to_bytes_in_range COMMAND_PREAMBLE_def COMMAND_POSTAMBLE_def
      REPORTING_PREAMBLE_def REPORTING_POSTAMBLE_def)

subsection \<open>The frame encoder\<close>

text \<open>
  C10. For every list of integers in the range 0..255, \<open>_tx_sequence\<close> called with
  the list does exactly what it does when called with the \<open>bytes\<close> object made
  from the list: the same bytes are written to the port, and the same result is
  returned (the same exception, when the length does not fit in two bytes).
\<close>

theorem tx_sequence_ints_as_bytes:
  "\<forall>x\<in>set xs. 0 \<le> x \<and> x \<le> 255 \<Longrightarrow>
     tx_sequence (Ints xs) port = tx_sequence (Bytes (map word_of_int xs)) port"
  by (simp add: tx_sequence_def list_ints_to_bytes_in_range)

text \<open>
  C10, at the command that enters configuration mode: both calls write
  \<open>FD FC FB FA 04 00 FF 00 01 00 04 03 02 01\<close>.
\<close>

theorem tx_sequence_ints_as_bytes_witness:
  "tx_sequence (Ints [0xFF, 0x00, 0x01, 0x00]) \<lparr>rx_pending = [], tx_written = [], timeout = 0\<rparr>
     = tx_sequence (Bytes [0xFF, 0x00, 0x01, 0x00]) \<lparr>rx_pending = [], tx_written = [], timeout = 0\<rparr> \<and>
   tx_sequence (Bytes [0xFF, 0x00, 0x01, 0x00]) \<lparr>rx_pending = [], tx_written = [], timeout = 0\<rparr>
     = (Inr (), \<lparr>rx_pending = [],
                 tx_written = [0xFD, 0xFC, 0xFB, 0xFA, 0x04, 0x00, 0xFF, 0x00, 0x01, 0x00,
                               0x04, 0x03, 0x02, 0x01],
                 timeout = 0\<rparr>)"
proof -
  have h: "\<forall>x\<in>set [0xFF, 0x00, 0x01, 0x00 :: int]. 0 \<le> x \<and> x \<le> 255" by simp
  have e: "tx_sequence (Bytes [0xFF, 0x00, 0x01, 0x00]) \<lparr>rx_pending = [], tx_written = [], timeout = 0\<rparr>
     = (Inr (), \<lparr>rx_pending = [],
                 tx_written = [0xFD, 0xFC, 0xFB, 0xFA, 0x04, 0x00, 0xFF, 0x00, 0x01, 0x00,
                               0x04, 0x03, 0x02, 0x01],
                 timeout = 0\<rparr>)"
    by (simp add: tx_sequence_def to_bytes_def serial_write_def COMMAND_PREAMBLE_def
        COMMAND_POSTAMBLE_def numeral_2_eq_2)
  show ?thesis
    using tx_sequence_ints_as_bytes [OF h, of "\<lparr>rx_pending = [], tx_written = [], timeout = 0\<rparr>"] e
    by simp
qed

subsection \<open>Presence\<close>

text \<open>
  C9. For every reading and every thresholds value (also when none is set),
  \<open>Reading.compare\<close> returns \<open>False\<close>, and so does \<open>_test_presence\<close>, whatever
  the gate energies of the reading and the thresholds are.
\<close>

theorem compare_reports_no_presence:
  "compare rd thr = False \<and> test_presence self rd = False"
  by (simp add: compare_def test_presence_def)

subsection \<open>The history buffer\<close>

lemma drop_drop_window:
  "drop (length (drop (length xs - n) xs @ ys) - n) (drop (length xs - n) xs @ ys)
     = drop (length (xs @ ys) - n) (xs @ ys)"
  by (cases "length xs < n") (auto simp: not_less add.commute)

lemma deque_append_bounded:
  "length (items d) \<le> maxlen d \<Longrightarrow> length (items (deque_append x d)) \<le> maxlen d"
  by (simp add: deque_append_def)

lemma items_fold_deque_append:
  "length (items d) \<le> maxlen d \<Longrightarrow>
     items (fold deque_append rs d)
       = drop (length (items d @ rs) - maxlen d) (items d @ rs)"
proof (induction rs arbitrary: d)
  case Nil
  then show ?case by simp
next
  case (Cons r rs)
  let ?d = "deque_append r d"
  have m: "maxlen ?d = maxlen d"
    by (simp add: deque_append_def)
  have b: "length (items ?d) \<le> maxlen ?d"
    using Cons.prems deque_append_bounded [of d r] m by simp
  have "items (fold deque_append (r # rs) d) = items (fold deque_append rs ?d)"
    by simp
  also have "\<dots> = drop (length (items ?d @ rs) - maxlen d) (items ?d @ rs)"
    using Cons.IH [OF b] m by simp
  also have "\<dots> = drop (length ((items d @ [r]) @ rs) - maxlen d) ((items d @ [r]) @ rs)"
    unfolding deque_append_def using drop_drop_window [of "items d @ [r]" "maxlen d" rs]
    by simp
  finally show ?case by simp
qed

text \<open>
  C8. For every capacity \<open>N \<ge> 1\<close> and every sequence of \<open>N + 1\<close> readings appended
  one after the other to the buffer \<open>deque(maxlen=N)\<close> that \<open>__init__\<close> creates,
  the buffer then holds exactly \<open>N\<close> entries, namely all but the first reading
  (the oldest is evicted), and \<open>get_latest\<close> returns the last reading appended.
\<close>

theorem buffer_keeps_newest:
  assumes "1 \<le> N" and "length rs = N + 1"
  shows "length (items (fold deque_append rs (deque_new N))) = N
       \<and> items (fold deque_append rs (deque_new N)) = tl rs
       \<and> get_latest (fold deque_append rs (deque_new N)) = Some (last rs)"
proof -
  let ?b = "fold deque_append rs (deque_new N)"
  have "items ?b = drop (length rs - N) rs"
    using items_fold_deque_append [of "deque_new N" rs] by (simp add: deque_new_def)
  then have i: "items ?b = tl rs"
    using assms by (simp add: drop_Suc)
  have ne: "tl rs \<noteq> []"
    using assms by (cases rs) auto
  then have "last (tl rs) = last rs"
    by (cases rs) auto
  with i ne assms show ?thesis
    by (simp add: get_latest_def)
qed

text \<open>
  C8, at capacity 2 with the three entries 10, 20, 30: the buffer ends as
  20, 30 and the latest entry is 30.
\<close>

theorem buffer_keeps_newest_witness:
  "(1::nat) \<le> 2 \<and> length [10, 20, 30 :: nat] = 2 + 1
   \<and> length (items (fold deque_append [10, 20, 30 :: nat] (deque_new 2))) = 2
   \<and> items (fold deque_append [10, 20, 30 :: nat] (deque_new 2)) = [20, 30]
   \<and> get_latest (fold deque_append [10, 20, 30 :: nat] (deque_new 2)) = Some 30"
  using buffer_keeps_newest [of 2 "[10, 20, 30 :: nat]"] by simp

subsection \<open>Decoding a report payload\<close>

lemma getitems_in_range:
  "\<forall>i\<in>set js. i < length seq \<Longrightarrow> getitems seq js = Inr (map (\<lambda>i. uint (seq ! i)) js)"
  by (induction js) (simp_all add: getitem_def)

lemma getitems_out_of_range:
  "\<exists>i\<in>set js. \<not> i < length seq \<Longrightarrow> getitems seq js = Inl IndexError"
proof (induction js)
  case Nil
  then show ?case by simp
next
  case (Cons j js)
  show ?case
  proof (cases "j < length seq")
    case True
    with Cons show ?thesis
      by (cases "getitems seq js") (auto simp: getitem_def)
  next
    case False
    then show ?thesis by (simp add: getitem_def)
  qed
qed

lemma new_from_bytes_short:
  assumes "length seq < 35"
  shows "new_from_bytes now seq = Inl IndexError"
proof (cases "length seq < 23")
  case True
  then have "\<exists>i\<in>set (map (\<lambda>i. 11 + i) [0..<12]). \<not> i < length seq"
    by (auto intro!: bexI [of _ 22])
  then show ?thesis
    by (simp only: new_from_bytes_def getitems_out_of_range bind_err_Inl)
next
  case False
  then have a: "\<forall>i\<in>set (map (\<lambda>i. 11 + i) [0..<12]). i < length seq"
    by auto
  have "\<exists>i\<in>set (map (\<lambda>i. 23 + i) [0..<12]). \<not> i < length seq"
    using assms by (auto intro!: bexI [of _ 34])
  then show ?thesis
    by (simp only: new_from_bytes_def getitems_out_of_range getitems_in_range [OF a]
        bind_err_Inl bind_err_Inr)
qed

lemma new_from_bytes_long:
  assumes "35 \<le> length seq"
  shows "new_from_bytes now seq =
     Inr \<lparr> timestamp = now,
             moving = map (\<lambda>i. uint (seq ! i)) (map (\<lambda>i. 11 + i) [0..<12]),
             static = map (\<lambda>i. uint (seq ! i)) (map (\<lambda>i. 23 + i) [0..<12]),
             target_state = uint (seq ! 0),
             moving_target_range = byte_pair_to_int (slice_of seq 1 3),
             moving_target_energy = uint (seq ! 3),
             static_target_range = byte_pair_to_int (slice_of seq 4 6),
             static_target_energy = uint (seq ! 6),
             detection_distance = byte_pair_to_int (slice_of seq 7 9),
             max_moving_distance = uint (seq ! 9),
             max_static_distance = uint (seq ! 10) \<rparr>"
proof -
  have a: "\<forall>i\<in>set (map (\<lambda>i. 11 + i) [0..<12]). i < length seq"
    using assms by auto
  have b: "\<forall>i\<in>set (map (\<lambda>i. 23 + i) [0..<12]). i < length seq"
    using assms by auto
  have c: "getitem seq 0 = Inr (uint (seq ! 0))" "getitem seq 3 = Inr (uint (seq ! 3))"
    "getitem seq 6 = Inr (uint (seq ! 6))" "getitem seq 9 = Inr (uint (seq ! 9))"
    "getitem seq 10 = Inr (uint (seq ! 10))"
    using assms by (auto simp: getitem_def)
  show ?thesis
    by (simp only: new_from_bytes_def getitems_in_range [OF a] getitems_in_range [OF b] c bind_err_Inr)
qed

lemma new_from_bytes_take:
  assumes "35 \<le> length seq"
  shows "new_from_bytes now seq = new_from_bytes now (take 35 seq)"
proof -
  have l: "35 \<le> length (take 35 seq)" using assms by simp
  have n: "\<And>i. i < 35 \<Longrightarrow> take 35 seq ! i = seq ! i" by simp
  have s: "slice_of (take 35 seq) 1 3 = slice_of seq 1 3" "slice_of (take 35 seq) 4 6 = slice_of seq 4 6"
    "slice_of (take 35 seq) 7 9 = slice_of seq 7 9"
    by (simp_all add: slice_of_def drop_take)
  show ?thesis
    unfolding new_from_bytes_long [OF assms] new_from_bytes_long [OF l]
    using s by (simp add: n)
qed

text \<open>
  C2, as stated: decoding the 35 bytes \<open>00 32 00 4B 1E 00 64 00 C8 00 0A\<close> followed
  by 24 zero bytes would give target_state 0, moving_target_range 50,
  moving_target_energy 75, static_target_range 30, static_target_energy 100,
  detection_distance 200, max_moving_distance 10 and two all-zero gate arrays.
  It does not: bytes 7 and 8 are \<open>00 C8\<close>, which is 51200 in little-endian order,
  and byte 9 is \<open>00\<close>.
\<close>

theorem decode_example_counterexample:
  "\<not> (case new_from_bytes 0
             ([0x00, 0x32, 0x00, 0x4B, 0x1E, 0x00, 0x64, 0x00, 0xC8, 0x00, 0x0A] @ replicate 24 0x00) of
         Inl e \<Rightarrow> False
       | Inr rd \<Rightarrow>
           target_state rd = 0 \<and> moving_target_range rd = 50 \<and> moving_target_energy rd = 75
           \<and> static_target_range rd = 30 \<and> static_target_energy rd = 100
           \<and> detection_distance rd = 200 \<and> max_moving_distance rd = 10
           \<and> moving rd = replicate 12 0 \<and> static rd = replicate 12 0)"
  by code_simp

text \<open>
  C2, amended: decoding the 35 bytes \<open>00 32 00 4B 1E 00 64 00 C8 00 0A\<close> followed by
  24 zero bytes gives target_state 0, moving_target_range 50, moving_target_energy
  75, static_target_range 30, static_target_energy 100, detection_distance 51200,
  max_moving_distance 0, max_static_distance 10 and two all-zero gate arrays of
  12 entries, by the layout: byte 0, bytes 1-2, byte 3, bytes 4-5, byte 6,
  bytes 7-8, byte 9, byte 10, bytes 11-22, bytes 23-34, the pairs little-endian.
\<close>

theorem decode_example:
  "new_from_bytes now
     ([0x00, 0x32, 0x00, 0x4B, 0x1E, 0x00, 0x64, 0x00, 0xC8, 0x00, 0x0A] @ replicate 24 0x00)
     = Inr \<lparr> timestamp = now,
             moving = replicate 12 0,
             static = replicate 12 0,
             target_state = 0,
             moving_target_range = 50,
             moving_target_energy = 75,
             static_target_range = 30,
             static_target_energy = 100,
             detection_distance = 51200,
             max_moving_distance = 0,
             max_static_distance = 10 \<rparr>"
  (is "new_from_bytes now ?P = _")
proof -
  have m: "getitems ?P (map (\<lambda>i. 11 + i) [0..<12]) = Inr (replicate 12 0)"
    by code_simp
  have s: "getitems ?P (map (\<lambda>i. 23 + i) [0..<12]) = Inr (replicate 12 0)"
    by code_simp
  have g: "getitem ?P 0 = Inr 0" "getitem ?P 3 = Inr 75" "getitem ?P 6 = Inr 100"
    "getitem ?P 9 = Inr 0" "getitem ?P 10 = Inr 10"
    by code_simp+
  have r: "byte_pair_to_int (slice_of ?P 1 3) = 50" "byte_pair_to_int (slice_of ?P 4 6) = 30"
    "byte_pair_to_int (slice_of ?P 7 9) = 51200"
    by code_simp+
  show ?thesis
    by (simp only: new_from_bytes_def m s g r bind_err_Inr)
qed

subsection \<open>Reading frames from the line\<close>

lemma read_pending_bytes:
  "read_pending (length bs) (map Rx bs @ rest) = (bs, rest)"
  by (induction bs) simp_all

lemma serial_read_bytes:
  "length bs = n \<Longrightarrow>
   serial_read n (port\<lparr>rx_pending := map Rx bs @ rest\<rparr>) = (bs, port\<lparr>rx_pending := rest\<rparr>)"
  using read_pending_bytes [of bs rest] by (simp add: serial_read_def)

lemma preamble_loop_Rx:
  "preamble_loop st (port\<lparr>rx_pending := Rx c # evs\<rparr>) =
     (case preamble_step c st of
        Next st' \<Rightarrow> preamble_loop st' (port\<lparr>rx_pending := evs\<rparr>)
      | Break st' \<Rightarrow> Some (Inr (preamble st'), port\<lparr>rx_pending := evs\<rparr>)
      | Raise e \<Rightarrow> Some (Inl e, port\<lparr>rx_pending := evs\<rparr>))"
  by (subst preamble_loop.simps) (simp add: serial_read_def split: step.split)

lemma preamble_loop_Timeout:
  "preamble_loop st (port\<lparr>rx_pending := Timeout # evs\<rparr>) = preamble_loop st (port\<lparr>rx_pending := evs\<rparr>)"
  by (subst preamble_loop.simps) (simp add: serial_read_def)

lemma preamble_loop_scan_Next:
  "scan_events st evs = Next st' \<Longrightarrow>
   preamble_loop st (port\<lparr>rx_pending := evs @ rest\<rparr>) = preamble_loop st' (port\<lparr>rx_pending := rest\<rparr>)"
proof (induction st evs rule: scan_events.induct)
  case (1 st)
  then show ?case by simp
next
  case (2 st evs)
  then show ?case by (simp add: preamble_loop_Timeout)
next
  case (3 st c evs)
  then show ?case
    by (cases "preamble_step c st") (simp_all add: preamble_loop_Rx)
qed

lemma scan_preamble:
  "pre = COMMAND_PREAMBLE \<or> pre = REPORTING_PREAMBLE \<Longrightarrow>
   preamble_loop initial_scanner (port\<lparr>rx_pending := map Rx pre @ rest\<rparr>)
     = Some (Inr pre, port\<lparr>rx_pending := rest\<rparr>)"
  by (auto simp: preamble_loop_Rx preamble_step_def initial_scanner_def
      COMMAND_PREAMBLE_def REPORTING_PREAMBLE_def)

lemma read_frame_rest_well_formed:
  assumes "length payload < 65536" and "length post = 4"
  shows "read_frame_rest pre
           (port\<lparr>rx_pending := map Rx (little_digits 2 (int (length payload)) @ payload @ post) @ rest\<rparr>)
         = (Inr (pre, payload, post), port\<lparr>rx_pending := rest\<rparr>)"
proof -
  let ?l = "little_digits 2 (int (length payload))"
  have l2: "length ?l = 2"
    by (simp add: numeral_2_eq_2)
  have n: "nat (byte_pair_to_int ?l) = length payload"
    using assms(1) from_bytes_little_digits [of "int (length payload)" 2]
    by (simp add: byte_pair_to_int_def)
  have r1: "read_bytes 2 (port\<lparr>rx_pending := map Rx (?l @ payload @ post) @ rest\<rparr>)
              = (?l, port\<lparr>rx_pending := map Rx (payload @ post) @ rest\<rparr>)"
    using serial_read_bytes [OF l2, where port = port and rest = "map Rx (payload @ post) @ rest"]
    by (simp add: read_bytes_def)
  have r2: "read_bytes (length payload) (port\<lparr>rx_pending := map Rx (payload @ post) @ rest\<rparr>)
              = (payload, port\<lparr>rx_pending := map Rx post @ rest\<rparr>)"
    using serial_read_bytes [where bs = payload and n = "length payload" and port = port and rest = "map Rx post @ rest"]
    by (simp add: read_bytes_def)
  have r3: "read_bytes 4 (port\<lparr>rx_pending := map Rx post @ rest\<rparr>)
              = (post, port\<lparr>rx_pending := rest\<rparr>)"
    using serial_read_bytes [OF assms(2), where port = port and rest = rest]
    by (simp add: read_bytes_def)
  show ?thesis
    unfolding read_frame_rest_def
    by (simp only: r1 r2 r3 n l2 assms Let_def split_conv if_False not_True_eq_False simp_thms)
qed

lemma read_any_message_frame:
  assumes "well_formed f"
  shows "read_any_message (port\<lparr>rx_pending := map Rx (frame_bytes f) @ rest\<rparr>)
         = Some (Inr f, port\<lparr>rx_pending := rest\<rparr>)"
proof -
  obtain pre payload post where f: "f = (pre, payload, post)"
    by (cases f) auto
  from assms f have p: "pre = COMMAND_PREAMBLE \<or> pre = REPORTING_PREAMBLE"
    and l: "length payload < 65536" and q: "length post = 4"
    by simp_all
  have "preamble_loop initial_scanner
          (port\<lparr>rx_pending := map Rx pre @ (map Rx (little_digits 2 (int (length payload)) @ payload @ post) @ rest)\<rparr>)
        = Some (Inr pre, port\<lparr>rx_pending := map Rx (little_digits 2 (int (length payload)) @ payload @ post) @ rest\<rparr>)"
    by (rule scan_preamble [OF p])
  then show ?thesis
    using read_frame_rest_well_formed [OF l q, where pre = pre and port = port and rest = rest]
    by (simp add: read_any_message_def f)
qed


lemma little_digits_two:
  "little_digits 2 n = [word_of_int (n mod 256), word_of_int (n div 256)]"
proof -
  have "(word_of_int (n div 256 mod 256) :: byte) = word_of_int (n div 256)"
    by (simp add: word_of_int_eq_iff take_bit_eq_mod)
  then show ?thesis by (simp add: numeral_2_eq_2)
qed

lemma tx_sequence_bytes:
  assumes "length body < 65536"
  shows "tx_sequence (Bytes body) port =
           (Inr (), port\<lparr>tx_written := tx_written port @ frame_bytes (COMMAND_PREAMBLE, body, COMMAND_POSTAMBLE)\<rparr>)"
  using assms by (simp add: tx_sequence_def to_bytes_def serial_write_def)

text \<open>
  C1. For every command body whose length fits in 16 bits, \<open>_tx_sequence\<close> writes
  the command preamble, the length as two little-endian bytes, the body and the
  command postamble; and \<open>_read_any_message\<close>, scanning the bytes written,
  returns the command preamble, exactly the original body as the payload, and the
  command postamble, leaving what follows the frame on the line unread.
\<close>

theorem command_frame_round_trip:
  assumes "length body < 65536"
  shows "tx_sequence (Bytes body) port =
           (Inr (), port\<lparr>tx_written := tx_written port @ COMMAND_PREAMBLE
               @ [word_of_int (int (length body) mod 256), word_of_int (int (length body) div 256)]
               @ body @ COMMAND_POSTAMBLE\<rparr>)
       \<and> read_any_message
           (line\<lparr>rx_pending :=
              map Rx (tx_written (snd (tx_sequence (Bytes body) (port\<lparr>tx_written := []\<rparr>)))) @ rest\<rparr>)
         = Some (Inr (COMMAND_PREAMBLE, body, COMMAND_POSTAMBLE), line\<lparr>rx_pending := rest\<rparr>)"
proof -
  have w: "well_formed (COMMAND_PREAMBLE, body, COMMAND_POSTAMBLE)"
    using assms by (simp add: COMMAND_POSTAMBLE_def)
  have "read_any_message
          (line\<lparr>rx_pending := map Rx (frame_bytes (COMMAND_PREAMBLE, body, COMMAND_POSTAMBLE)) @ rest\<rparr>)
        = Some (Inr (COMMAND_PREAMBLE, body, COMMAND_POSTAMBLE), line\<lparr>rx_pending := rest\<rparr>)"
    by (rule read_any_message_frame [OF w])
  then show ?thesis
    using tx_sequence_bytes [OF assms, of port] tx_sequence_bytes [OF assms, of "port\<lparr>tx_written := []\<rparr>"]
    by (simp add: little_digits_two)
qed

text \<open>
  C1, at the body \<open>FF 00 01 00\<close>: the frame written is
  \<open>FD FC FB FA 04 00 FF 00 01 00 04 03 02 01\<close>, and reading it back gives the body.
\<close>

theorem command_frame_round_trip_witness:
  "tx_sequence (Bytes [0xFF, 0x00, 0x01, 0x00]) \<lparr>rx_pending = [], tx_written = [], timeout = 0\<rparr>
     = (Inr (), \<lparr>rx_pending = [],
                 tx_written = [0xFD, 0xFC, 0xFB, 0xFA, 0x04, 0x00, 0xFF, 0x00, 0x01, 0x00,
                               0x04, 0x03, 0x02, 0x01],
                 timeout = 0\<rparr>)
   \<and> read_any_message
        \<lparr>rx_pending = map Rx [0xFD, 0xFC, 0xFB, 0xFA, 0x04, 0x00, 0xFF, 0x00, 0x01, 0x00,
                               0x04, 0x03, 0x02, 0x01] @ [Rx 0x55],
         tx_written = [], timeout = 0\<rparr>
     = Some (Inr ([0xFD, 0xFC, 0xFB, 0xFA], [0xFF, 0x00, 0x01, 0x00], [0x04, 0x03, 0x02, 0x01]),
             \<lparr>rx_pending = [Rx 0x55], tx_written = [], timeout = 0\<rparr>)"
proof -
  have h: "length [0xFF, 0x00, 0x01, 0x00 :: byte] < 65536" by simp
  note rt = command_frame_round_trip [OF h,
        where port = "\<lparr>rx_pending = [], tx_written = [], timeout = 0\<rparr>"
          and line = "\<lparr>rx_pending = [], tx_written = [], timeout = 0\<rparr>" and rest = "[Rx 0x55]"]
  have t: "tx_sequence (Bytes [0xFF, 0x00, 0x01, 0x00]) \<lparr>rx_pending = [], tx_written = [], timeout = 0\<rparr>
     = (Inr (), \<lparr>rx_pending = [],
                 tx_written = [0xFD, 0xFC, 0xFB, 0xFA, 0x04, 0x00, 0xFF, 0x00, 0x01, 0x00,
                               0x04, 0x03, 0x02, 0x01],
                 timeout = 0\<rparr>)"
    using rt [THEN conjunct1] by (simp add: COMMAND_PREAMBLE_def COMMAND_POSTAMBLE_def)
  show ?thesis
    using rt [THEN conjunct2] t by (simp add: COMMAND_PREAMBLE_def COMMAND_POSTAMBLE_def)
qed


lemma read_any_message_after_preamble:
  "preamble_loop initial_scanner port = Some (Inr pre, port0) \<Longrightarrow>
   read_any_message port = Some (read_frame_rest pre port0)"
  by (simp add: read_any_message_def)

lemma length_read_pending: "length (fst (read_pending n evs)) \<le> n"
  by (induction n evs rule: read_pending.induct) simp_all

text \<open>
  C6. Once the preamble is recognised, \<open>_read_any_message\<close> reads 2 length bytes,
  then as many payload bytes as the length field declares, then 4 postamble bytes.
  When one of these reads returns fewer bytes than requested, the call raises an
  \<open>LD2410Exception\<close> (naming the length, the payload with the number of bytes
  received, or the postamble); and when it returns a frame, the payload has exactly
  the declared length, never fewer bytes.
\<close>

theorem short_read_raises:
  assumes "preamble_loop initial_scanner port = Some (Inr pre, port0)"
    and "read_bytes 2 port0 = (length_raw, port1)"
    and "read_bytes (nat (byte_pair_to_int length_raw)) port1 = (payload, port2)"
    and "read_bytes 4 port2 = (postamble, port3)"
  shows "(length length_raw < 2 \<longrightarrow>
            read_any_message port =
              Some (Inl (LD2410Exception
                ''Didn't get two bytes for the message length in the expected time''), port1))
       \<and> (length length_raw = 2 \<and> length payload < nat (byte_pair_to_int length_raw) \<longrightarrow>
            read_any_message port =
              Some (Inl (LD2410Exception
                (''Payload was short, only received : '' @ str_nat (length payload) @ '' bytes'')),
                port2))
       \<and> (length length_raw = 2 \<and> length payload = nat (byte_pair_to_int length_raw)
            \<and> length postamble < 4 \<longrightarrow>
            read_any_message port =
              Some (Inl (LD2410Exception ''Failed to receive the full 4 byte postamble''), port3))
       \<and> (\<forall>f port'. read_any_message port = Some (Inr f, port') \<longrightarrow>
            f = (pre, payload, postamble) \<and> port' = port3 \<and> length length_raw = 2
            \<and> length payload = nat (byte_pair_to_int length_raw) \<and> length postamble = 4)"
proof -
  have m: "read_any_message port = Some (read_frame_rest pre port0)"
    using assms(1) by (rule read_any_message_after_preamble)
  show ?thesis
    unfolding m read_frame_rest_def
    by (simp add: assms(2-4))
qed

lemma str_nat_2: "str_nat (Suc (Suc 0)) = ''2''"
  by code_simp

text \<open>
  C6, on four lines that carry a command preamble followed by: one length byte
  only; a declared length of 4 with a silence after 2 payload bytes; a complete
  payload and 2 postamble bytes; a complete frame.
\<close>

theorem short_read_raises_witness:
  "read_any_message \<lparr>rx_pending = map Rx [0xFD, 0xFC, 0xFB, 0xFA, 0x02], tx_written = [], timeout = 2\<rparr>
     = Some (Inl (LD2410Exception
               ''Didn't get two bytes for the message length in the expected time''),
             \<lparr>rx_pending = [], tx_written = [], timeout = 2\<rparr>)
   \<and> read_any_message
        \<lparr>rx_pending = map Rx [0xFD, 0xFC, 0xFB, 0xFA, 0x04, 0x00, 0xFF, 0x00] @ Timeout
                        # map Rx [0x01, 0x00, 0x04, 0x03, 0x02, 0x01],
         tx_written = [], timeout = 2\<rparr>
     = Some (Inl (LD2410Exception ''Payload was short, only received : 2 bytes''),
             \<lparr>rx_pending = map Rx [0x01, 0x00, 0x04, 0x03, 0x02, 0x01], tx_written = [], timeout = 2\<rparr>)
   \<and> read_any_message
        \<lparr>rx_pending = map Rx [0xFD, 0xFC, 0xFB, 0xFA, 0x02, 0x00, 0xFE, 0x00, 0x04, 0x03],
         tx_written = [], timeout = 2\<rparr>
     = Some (Inl (LD2410Exception ''Failed to receive the full 4 byte postamble''),
             \<lparr>rx_pending = [], tx_written = [], timeout = 2\<rparr>)
"
proof -
  let ?p = "\<lambda>evs. \<lparr>rx_pending = evs, tx_written = [], timeout = 2\<rparr>"
  let ?pre = "[0xFD, 0xFC, 0xFB, 0xFA] :: byte list"
  have a1: "preamble_loop initial_scanner (?p (map Rx [0xFD, 0xFC, 0xFB, 0xFA, 0x02]))
              = Some (Inr ?pre, ?p [Rx 0x02])"
    by code_simp
  have b1: "read_bytes 2 (?p [Rx 0x02]) = ([0x02], ?p [])"
    by code_simp
  have c1: "read_bytes (nat (byte_pair_to_int [0x02])) (?p []) = ([], ?p [])"
    by code_simp
  have d1: "read_bytes 4 (?p []) = ([], ?p [])"
    by code_simp
  have w1: "read_any_message (?p (map Rx [0xFD, 0xFC, 0xFB, 0xFA, 0x02]))
     = Some (Inl (LD2410Exception
               ''Didn't get two bytes for the message length in the expected time''), ?p [])"
    using short_read_raises [OF a1 b1 c1 d1] by simp
  have a2: "preamble_loop initial_scanner
              (?p (map Rx [0xFD, 0xFC, 0xFB, 0xFA, 0x04, 0x00, 0xFF, 0x00] @ Timeout
                        # map Rx [0x01, 0x00, 0x04, 0x03, 0x02, 0x01]))
              = Some (Inr ?pre, ?p (map Rx [0x04, 0x00, 0xFF, 0x00] @ Timeout
                        # map Rx [0x01, 0x00, 0x04, 0x03, 0x02, 0x01]))"
    by code_simp
  have b2: "read_bytes 2 (?p (map Rx [0x04, 0x00, 0xFF, 0x00] @ Timeout
                        # map Rx [0x01, 0x00, 0x04, 0x03, 0x02, 0x01]))
              = ([0x04, 0x00], ?p (map Rx [0xFF, 0x00] @ Timeout
                        # map Rx [0x01, 0x00, 0x04, 0x03, 0x02, 0x01]))"
    by code_simp
  have c2: "read_bytes (nat (byte_pair_to_int [0x04, 0x00])) (?p (map Rx [0xFF, 0x00] @ Timeout
                        # map Rx [0x01, 0x00, 0x04, 0x03, 0x02, 0x01]))
              = ([0xFF, 0x00], ?p (map Rx [0x01, 0x00, 0x04, 0x03, 0x02, 0x01]))"
    by code_simp
  have d2: "read_bytes 4 (?p (map Rx [0x01, 0x00, 0x04, 0x03, 0x02, 0x01]))
              = ([0x01, 0x00, 0x04, 0x03], ?p (map Rx [0x02, 0x01]))"
    by code_simp
  have n2: "nat (byte_pair_to_int [0x04, 0x00]) = 4"
    by code_simp
  have w2: "read_any_message (?p (map Rx [0xFD, 0xFC, 0xFB, 0xFA, 0x04, 0x00, 0xFF, 0x00] @ Timeout
                        # map Rx [0x01, 0x00, 0x04, 0x03, 0x02, 0x01]))
     = Some (Inl (LD2410Exception ''Payload was short, only received : 2 bytes''),
             ?p (map Rx [0x01, 0x00, 0x04, 0x03, 0x02, 0x01]))"
    using short_read_raises [OF a2 b2 c2 d2] by (simp add: n2 str_nat_2)
  have a3: "preamble_loop initial_scanner
              (?p (map Rx [0xFD, 0xFC, 0xFB, 0xFA, 0x02, 0x00, 0xFE, 0x00, 0x04, 0x03]))
              = Some (Inr ?pre, ?p (map Rx [0x02, 0x00, 0xFE, 0x00, 0x04, 0x03]))"
    by code_simp
  have b3: "read_bytes 2 (?p (map Rx [0x02, 0x00, 0xFE, 0x00, 0x04, 0x03]))
              = ([0x02, 0x00], ?p (map Rx [0xFE, 0x00, 0x04, 0x03]))"
    by code_simp
  have c3: "read_bytes (nat (byte_pair_to_int [0x02, 0x00])) (?p (map Rx [0xFE, 0x00, 0x04, 0x03]))
              = ([0xFE, 0x00], ?p (map Rx [0x04, 0x03]))"
    by code_simp
  have d3: "read_bytes 4 (?p (map Rx [0x04, 0x03])) = ([0x04, 0x03], ?p [])"
    by code_simp
  have n3: "nat (byte_pair_to_int [0x02, 0x00]) = 2"
    by code_simp
  have w3: "read_any_message (?p (map Rx [0xFD, 0xFC, 0xFB, 0xFA, 0x02, 0x00, 0xFE, 0x00, 0x04, 0x03]))
     = Some (Inl (LD2410Exception ''Failed to receive the full 4 byte postamble''), ?p [])"
    using short_read_raises [OF a3 b3 c3 d3] by (simp add: n3)
  have a4: "preamble_loop initial_scanner
              (?p (map Rx [0xFD, 0xFC, 0xFB, 0xFA, 0x02, 0x00, 0xFE, 0x00, 0x04, 0x03, 0x02, 0x01]))
              = Some (Inr ?pre, ?p (map Rx [0x02, 0x00, 0xFE, 0x00, 0x04, 0x03, 0x02, 0x01]))"
    by code_simp
  have b4: "read_bytes 2 (?p (map Rx [0x02, 0x00, 0xFE, 0x00, 0x04, 0x03, 0x02, 0x01]))
              = ([0x02, 0x00], ?p (map Rx [0xFE, 0x00, 0x04, 0x03, 0x02, 0x01]))"
    by code_simp
  have c4: "read_bytes (nat (byte_pair_to_int [0x02, 0x00])) (?p (map Rx [0xFE, 0x00, 0x04, 0x03, 0x02, 0x01]))
              = ([0xFE, 0x00], ?p (map Rx [0x04, 0x03, 0x02, 0x01]))"
    by code_simp
  have d4: "read_bytes 4 (?p (map Rx [0x04, 0x03, 0x02, 0x01])) = ([0x04, 0x03, 0x02, 0x01], ?p [])"
    by code_simp
  have e4: "read_any_message
          (?p (map Rx [0xFD, 0xFC, 0xFB, 0xFA, 0x02, 0x00, 0xFE, 0x00, 0x04, 0x03, 0x02, 0x01]))
          = Some (Inr (?pre, [0xFE, 0x00], [0x04, 0x03, 0x02, 0x01]), ?p [])"
    by code_simp
  have w4: "length [0xFE, 0x00 :: byte] = nat (byte_pair_to_int [0x02, 0x00])"
    using short_read_raises [OF a4 b4 c4 d4] e4 by blast
  show ?thesis
    using w1 w2 w3 e4 w4 by simp
qed

subsection \<open>Noise before a frame\<close>

text \<open>On a line with no event left the preamble search never returns.\<close>

lemma preamble_loop_returns_after_event:
  assumes "preamble_loop st port = Some y"
  shows "rx_pending port \<noteq> []"
proof (rule preamble_loop.raw_induct [where P = "\<lambda>_ p _. rx_pending p \<noteq> []", OF _ assms])
  fix loop :: "scanner \<Rightarrow> serial_port \<Rightarrow> ((error + byte list) \<times> serial_port) option"
    and st port y
  assume ih: "\<And>st port y. loop st port = Some y \<Longrightarrow> rx_pending port \<noteq> []"
    and body: "(if length (fst (serial_read 1 port)) = 0 then loop st (snd (serial_read 1 port))
      else case preamble_step (fst (serial_read 1 port) ! 0) st of
           Next st' \<Rightarrow> loop st' (snd (serial_read 1 port))
           | Break st' \<Rightarrow> Some (Inr (preamble st'), snd (serial_read 1 port))
           | Raise e \<Rightarrow> Some (Inl e, snd (serial_read 1 port))) = Some y"
  show "rx_pending port \<noteq> []"
  proof
    assume n: "rx_pending port = []"
    then have "serial_read 1 port = ([], port)"
      by (simp add: serial_read_def)
    with body have "loop st port = Some y"
      by simp
    then have "rx_pending port \<noteq> []"
      by (rule ih)
    with n show False by simp
  qed
qed

lemma preamble_loop_silent_line:
  "rx_pending port = [] \<Longrightarrow> preamble_loop st port = None"
  using preamble_loop_returns_after_event [of st port] by (cases "preamble_loop st port") auto

lemma scan_events_no_start:
  "\<forall>e\<in>set noise. e \<noteq> Rx 0xFD \<and> e \<noteq> Rx 0xF4 \<Longrightarrow>
   scan_events initial_scanner noise = Next initial_scanner"
proof (induction noise)
  case Nil
  then show ?case by simp
next
  case (Cons e noise)
  show ?case
  proof (cases e)
    case (Rx c)
    with Cons.prems have "c \<noteq> 0xFD" and "c \<noteq> 0xF4"
      by auto
    then have "preamble_step c initial_scanner = Next initial_scanner"
      by (simp add: preamble_step_def initial_scanner_def COMMAND_PREAMBLE_def REPORTING_PREAMBLE_def)
    with Rx Cons show ?thesis by simp
  next
    case Timeout
    with Cons show ?thesis by simp
  qed
qed

text \<open>
  C3, amended. For every stretch of line events (bytes and timed-out reads) that
  leaves the preamble scanner at index 0, so that no partial preamble match is
  pending where the frame starts (any stretch without the bytes \<open>FD\<close> and \<open>F4\<close>
  is one), prepending it to a well-formed frame does not change what
  \<open>_read_any_message\<close> returns: the frame, with its payload unchanged.
\<close>

theorem noise_before_frame:
  assumes "scan_events initial_scanner noise = Next initial_scanner" and "well_formed f"
  shows "read_any_message (port\<lparr>rx_pending := noise @ map Rx (frame_bytes f) @ rest\<rparr>)
           = read_any_message (port\<lparr>rx_pending := map Rx (frame_bytes f) @ rest\<rparr>)
       \<and> read_any_message (port\<lparr>rx_pending := noise @ map Rx (frame_bytes f) @ rest\<rparr>)
           = Some (Inr f, port\<lparr>rx_pending := rest\<rparr>)"
proof -
  have "preamble_loop initial_scanner (port\<lparr>rx_pending := noise @ map Rx (frame_bytes f) @ rest\<rparr>)
          = preamble_loop initial_scanner (port\<lparr>rx_pending := map Rx (frame_bytes f) @ rest\<rparr>)"
    using assms(1) by (rule preamble_loop_scan_Next)
  then have "read_any_message (port\<lparr>rx_pending := noise @ map Rx (frame_bytes f) @ rest\<rparr>)
           = read_any_message (port\<lparr>rx_pending := map Rx (frame_bytes f) @ rest\<rparr>)"
    by (simp add: read_any_message_def)
  then show ?thesis
    using read_any_message_frame [OF assms(2), where port = port and rest = rest] by simp
qed

text \<open>
  C3, as stated, for every noise that contains no frame: the single noise byte
  \<open>FD\<close> contains no frame, yet it starts a preamble match that the first byte of
  the frame then breaks; the scanner restarts on the next byte, the second of the
  real preamble, and the frame is missed. With the noise the call never returns on
  this line; without it the payload \<open>FE 00\<close> is returned.
\<close>

theorem noise_before_frame_counterexample:
  "read_any_message
     \<lparr>rx_pending = map Rx ([0xFD] @ [0xFD, 0xFC, 0xFB, 0xFA, 0x02, 0x00, 0xFE, 0x00, 0x04, 0x03, 0x02, 0x01]),
      tx_written = [], timeout = 2\<rparr> = None
   \<and> read_any_message
     \<lparr>rx_pending = map Rx [0xFD, 0xFC, 0xFB, 0xFA, 0x02, 0x00, 0xFE, 0x00, 0x04, 0x03, 0x02, 0x01],
      tx_written = [], timeout = 2\<rparr>
     = Some (Inr ([0xFD, 0xFC, 0xFB, 0xFA], [0xFE, 0x00], [0x04, 0x03, 0x02, 0x01]),
             \<lparr>rx_pending = [], tx_written = [], timeout = 2\<rparr>)"
proof -
  let ?p = "\<lparr>rx_pending = [], tx_written = [], timeout = 2\<rparr>"
  have "scan_events initial_scanner
          (map Rx ([0xFD] @ [0xFD, 0xFC, 0xFB, 0xFA, 0x02, 0x00, 0xFE, 0x00, 0x04, 0x03, 0x02, 0x01]))
        = Next initial_scanner"
    by code_simp
  then have "preamble_loop initial_scanner
          (?p\<lparr>rx_pending := map Rx ([0xFD] @ [0xFD, 0xFC, 0xFB, 0xFA, 0x02, 0x00, 0xFE, 0x00, 0x04, 0x03, 0x02, 0x01]) @ []\<rparr>)
        = preamble_loop initial_scanner (?p\<lparr>rx_pending := []\<rparr>)"
    by (rule preamble_loop_scan_Next)
  also have "\<dots> = None"
    by (rule preamble_loop_silent_line) simp
  finally have a: "read_any_message
     \<lparr>rx_pending = map Rx ([0xFD] @ [0xFD, 0xFC, 0xFB, 0xFA, 0x02, 0x00, 0xFE, 0x00, 0x04, 0x03, 0x02, 0x01]),
      tx_written = [], timeout = 2\<rparr> = None"
    by (simp add: read_any_message_def)
  have b: "read_any_message
     \<lparr>rx_pending = map Rx [0xFD, 0xFC, 0xFB, 0xFA, 0x02, 0x00, 0xFE, 0x00, 0x04, 0x03, 0x02, 0x01],
      tx_written = [], timeout = 2\<rparr>
     = Some (Inr ([0xFD, 0xFC, 0xFB, 0xFA], [0xFE, 0x00], [0x04, 0x03, 0x02, 0x01]),
             \<lparr>rx_pending = [], tx_written = [], timeout = 2\<rparr>)"
    by code_simp
  from a b show ?thesis by simp
qed

text \<open>
  C3, amended, at a noise with a timed-out read, a lone \<open>FD\<close> and a broken report
  preamble, all before the frame.
\<close>

theorem noise_before_frame_witness:
  "read_any_message
     \<lparr>rx_pending = [Rx 0x00, Timeout, Rx 0xFD, Rx 0x17, Rx 0xF4, Rx 0xF3, Timeout, Rx 0xF3]
                    @ map Rx [0xFD, 0xFC, 0xFB, 0xFA, 0x02, 0x00, 0xFE, 0x00, 0x04, 0x03, 0x02, 0x01]
                    @ [Rx 0x99],
      tx_written = [], timeout = 2\<rparr>
     = Some (Inr ([0xFD, 0xFC, 0xFB, 0xFA], [0xFE, 0x00], [0x04, 0x03, 0x02, 0x01]),
             \<lparr>rx_pending = [Rx 0x99], tx_written = [], timeout = 2\<rparr>)"
proof -
  have n: "scan_events initial_scanner [Rx 0x00, Timeout, Rx 0xFD, Rx 0x17, Rx 0xF4, Rx 0xF3, Timeout, Rx 0xF3]
             = Next initial_scanner"
    by code_simp
  have w: "well_formed ([0xFD, 0xFC, 0xFB, 0xFA], [0xFE, 0x00], [0x04, 0x03, 0x02, 0x01])"
    by (simp add: COMMAND_PREAMBLE_def)
  show ?thesis
    using noise_before_frame [OF n w, where port = "\<lparr>rx_pending = [], tx_written = [], timeout = 2\<rparr>"
        and rest = "[Rx 0x99]", THEN conjunct2]
    by (simp add: numeral_2_eq_2)
qed


subsection \<open>Receiving with retries\<close>

lemma timeout_before_rx_pending:
  "port\<lparr>rx_pending := evs, timeout := t\<rparr> = port\<lparr>timeout := t, rx_pending := evs\<rparr>"
  by simp

lemma rx_sequence_for_wrong_kind:
  assumes "well_formed f" and "\<not> kind_matches r f"
  shows "rx_sequence_for r n (Suc k) (port\<lparr>rx_pending := map Rx (frame_bytes f) @ rest\<rparr>)
           = rx_sequence_for r n k (port\<lparr>rx_pending := rest\<rparr>)"
proof -
  obtain pre payload post where f: "f = (pre, payload, post)"
    by (cases f) auto
  have "read_any_message (port\<lparr>rx_pending := map Rx (frame_bytes f) @ rest\<rparr>)
          = Some (Inr (pre, payload, post), port\<lparr>rx_pending := rest\<rparr>)"
    using read_any_message_frame [OF assms(1), where port = port and rest = rest] f by simp
  then show ?thesis
    using assms(2) f by auto
qed

lemma rx_sequence_for_right_kind:
  assumes "well_formed (pre, payload, post)" and "kind_matches r (pre, payload, post)"
  shows "rx_sequence_for r n (Suc k) (port\<lparr>rx_pending := map Rx (frame_bytes (pre, payload, post)) @ rest\<rparr>)
           = Some (Inr payload, port\<lparr>rx_pending := rest\<rparr>)"
proof -
  have "read_any_message (port\<lparr>rx_pending := map Rx (frame_bytes (pre, payload, post)) @ rest\<rparr>)
          = Some (Inr (pre, payload, post), port\<lparr>rx_pending := rest\<rparr>)"
    by (rule read_any_message_frame [OF assms(1)])
  then show ?thesis
    using assms(2) by simp
qed

lemma rx_sequence_for_skips:
  assumes "\<forall>f\<in>set fs. well_formed f \<and> \<not> kind_matches r f" and "length fs \<le> k"
  shows "rx_sequence_for r n k (port\<lparr>rx_pending := map Rx (concat (map frame_bytes fs)) @ rest\<rparr>)
           = rx_sequence_for r n (k - length fs) (port\<lparr>rx_pending := rest\<rparr>)"
  using assms
proof (induction fs arbitrary: k)
  case Nil
  then show ?case by simp
next
  case (Cons f fs)
  then obtain k' where k: "k = Suc k'" and l: "length fs \<le> k'"
    by (cases k) auto
  have w: "well_formed f" and m: "\<not> kind_matches r f"
    using Cons.prems(1) by simp_all
  have "rx_sequence_for r n (Suc k')
          (port\<lparr>rx_pending := map Rx (frame_bytes f) @ (map Rx (concat (map frame_bytes fs)) @ rest)\<rparr>)
        = rx_sequence_for r n k' (port\<lparr>rx_pending := map Rx (concat (map frame_bytes fs)) @ rest\<rparr>)"
    by (rule rx_sequence_for_wrong_kind [OF w m])
  also have "\<dots> = rx_sequence_for r n (k' - length fs) (port\<lparr>rx_pending := rest\<rparr>)"
    using Cons.IH [OF _ l] Cons.prems(1) by simp
  finally show ?case
    using k by simp
qed

text \<open>
  C5. For every expected kind (report or command) and every retry count \<open>n\<close>:
  when the line carries fewer than \<open>n\<close> well-formed frames of the wrong kind
  followed by a frame of the expected kind, \<open>_rx_sequence\<close> returns the payload
  of that frame, and the wrong-kind frames before it are consumed; when the line
  carries \<open>n\<close> frames of the wrong kind, it raises the \<open>LD2410Exception\<close> whose
  message names the expected kind and \<open>n\<close>, the \<open>n\<close> frames being consumed and
  nothing after them read. A frame is of the expected kind when both its preamble
  and its postamble are the expected ones.
\<close>

theorem rx_sequence_first_matching_frame:
  assumes "\<forall>f\<in>set wrong. well_formed f \<and> \<not> kind_matches report_expected f"
    and "length payload < 65536"
  shows "(length wrong < retries \<longrightarrow>
            rx_sequence report_expected retries tmo
              (port\<lparr>rx_pending :=
                 map Rx (concat (map frame_bytes wrong)
                   @ frame_bytes (expected_preamble report_expected, payload,
                                  expected_postamble report_expected)) @ rest\<rparr>)
            = Some (Inr payload, port\<lparr>rx_pending := rest, timeout := tmo\<rparr>))
       \<and> (length wrong = retries \<longrightarrow>
            rx_sequence report_expected retries tmo
              (port\<lparr>rx_pending := map Rx (concat (map frame_bytes wrong)) @ rest\<rparr>)
            = Some (Inl (LD2410Exception
                      (''Failed to get a message of type ''
                       @ (if report_expected then ''report'' else ''command ack'')
                       @ '' after '' @ str_nat retries @ '' attempts'')),
                    port\<lparr>rx_pending := rest, timeout := tmo\<rparr>))"
proof (intro conjI impI)
  let ?g = "(expected_preamble report_expected, payload, expected_postamble report_expected)"
  assume l: "length wrong < retries"
  then obtain k where k: "retries - length wrong = Suc k"
    by (cases "retries - length wrong") auto
  have w: "well_formed ?g"
    using assms(2)
    by (simp add: expected_preamble_def expected_postamble_def
        REPORTING_POSTAMBLE_def COMMAND_POSTAMBLE_def)
  have m: "kind_matches report_expected ?g"
    by simp
  have "rx_sequence_for report_expected retries retries
          (port\<lparr>timeout := tmo, rx_pending := map Rx (concat (map frame_bytes wrong)) @ (map Rx (frame_bytes ?g) @ rest)\<rparr>)
        = rx_sequence_for report_expected retries (retries - length wrong)
            (port\<lparr>timeout := tmo, rx_pending := map Rx (frame_bytes ?g) @ rest\<rparr>)"
    using rx_sequence_for_skips [OF assms(1), where k = retries and port = "port\<lparr>timeout := tmo\<rparr>"] l
    by simp
  also have "\<dots> = Some (Inr payload, port\<lparr>timeout := tmo, rx_pending := rest\<rparr>)"
    unfolding k using rx_sequence_for_right_kind [OF w m, where port = "port\<lparr>timeout := tmo\<rparr>"]
    by simp
  finally show "rx_sequence report_expected retries tmo
              (port\<lparr>rx_pending :=
                 map Rx (concat (map frame_bytes wrong) @ frame_bytes ?g) @ rest\<rparr>)
            = Some (Inr payload, port\<lparr>rx_pending := rest, timeout := tmo\<rparr>)"
    by (simp add: rx_sequence_def timeout_before_rx_pending)
next
  assume l: "length wrong = retries"
  have "rx_sequence_for report_expected retries retries
          (port\<lparr>timeout := tmo, rx_pending := map Rx (concat (map frame_bytes wrong)) @ rest\<rparr>)
        = rx_sequence_for report_expected retries (retries - length wrong)
            (port\<lparr>timeout := tmo, rx_pending := rest\<rparr>)"
    using rx_sequence_for_skips [OF assms(1), where k = retries and port = "port\<lparr>timeout := tmo\<rparr>"] l
    by simp
  then show "rx_sequence report_expected retries tmo
              (port\<lparr>rx_pending := map Rx (concat (map frame_bytes wrong)) @ rest\<rparr>)
            = Some (Inl (LD2410Exception
                      (''Failed to get a message of type ''
                       @ (if report_expected then ''report'' else ''command ack'')
                       @ '' after '' @ str_nat retries @ '' attempts'')),
                    port\<lparr>rx_pending := rest, timeout := tmo\<rparr>)"
    using l by (simp add: rx_sequence_def retries_exhausted_def timeout_before_rx_pending)
qed

lemma str_nat_1: "str_nat (Suc 0) = ''1''"
  by code_simp

text \<open>
  C5, waiting for a command frame on a line that carries a report frame and then
  a command frame: with 10 retries the payload \<open>FE 00\<close> of the command frame is
  returned, with 1 retry the call raises and the command frame stays unread.
\<close>

theorem rx_sequence_first_matching_frame_witness:
  "rx_sequence False 10 2
     \<lparr>rx_pending = map Rx ([0xF4, 0xF3, 0xF2, 0xF1, 0x01, 0x00, 0x07, 0xF8, 0xF7, 0xF6, 0xF5]
                             @ [0xFD, 0xFC, 0xFB, 0xFA, 0x02, 0x00, 0xFE, 0x00, 0x04, 0x03, 0x02, 0x01])
                    @ [Rx 0x99],
      tx_written = [], timeout = 0\<rparr>
     = Some (Inr [0xFE, 0x00], \<lparr>rx_pending = [Rx 0x99], tx_written = [], timeout = 2\<rparr>)
   \<and> rx_sequence False 1 2
     \<lparr>rx_pending = map Rx [0xF4, 0xF3, 0xF2, 0xF1, 0x01, 0x00, 0x07, 0xF8, 0xF7, 0xF6, 0xF5]
                    @ map Rx [0xFD, 0xFC, 0xFB, 0xFA, 0x02, 0x00, 0xFE, 0x00, 0x04, 0x03, 0x02, 0x01],
      tx_written = [], timeout = 0\<rparr>
     = Some (Inl (LD2410Exception ''Failed to get a message of type command ack after 1 attempts''),
             \<lparr>rx_pending = map Rx [0xFD, 0xFC, 0xFB, 0xFA, 0x02, 0x00, 0xFE, 0x00, 0x04, 0x03, 0x02, 0x01],
              tx_written = [], timeout = 2\<rparr>)"
proof -
  let ?port = "\<lparr>rx_pending = [], tx_written = [], timeout = 0\<rparr>"
  let ?report = "(REPORTING_PREAMBLE, [0x07], REPORTING_POSTAMBLE) :: frame"
  have h: "\<forall>f\<in>set [?report]. well_formed f \<and> \<not> kind_matches False f"
    by (simp add: expected_preamble_def COMMAND_PREAMBLE_def REPORTING_PREAMBLE_def
        REPORTING_POSTAMBLE_def)
  have p: "length [0xFE, 0x00 :: byte] < 65536"
    by simp
  have a: "rx_sequence False 10 2
     \<lparr>rx_pending = map Rx ([0xF4, 0xF3, 0xF2, 0xF1, 0x01, 0x00, 0x07, 0xF8, 0xF7, 0xF6, 0xF5]
                             @ [0xFD, 0xFC, 0xFB, 0xFA, 0x02, 0x00, 0xFE, 0x00, 0x04, 0x03, 0x02, 0x01])
                    @ [Rx 0x99],
      tx_written = [], timeout = 0\<rparr>
     = Some (Inr [0xFE, 0x00], \<lparr>rx_pending = [Rx 0x99], tx_written = [], timeout = 2\<rparr>)"
    using rx_sequence_first_matching_frame [OF h p, where retries = 10 and tmo = 2
        and port = ?port and rest = "[Rx 0x99]", THEN conjunct1]
    by (simp add: expected_preamble_def expected_postamble_def COMMAND_PREAMBLE_def
        COMMAND_POSTAMBLE_def REPORTING_PREAMBLE_def REPORTING_POSTAMBLE_def numeral_2_eq_2)
  have b: "rx_sequence False 1 2
     \<lparr>rx_pending = map Rx [0xF4, 0xF3, 0xF2, 0xF1, 0x01, 0x00, 0x07, 0xF8, 0xF7, 0xF6, 0xF5]
                    @ map Rx [0xFD, 0xFC, 0xFB, 0xFA, 0x02, 0x00, 0xFE, 0x00, 0x04, 0x03, 0x02, 0x01],
      tx_written = [], timeout = 0\<rparr>
     = Some (Inl (LD2410Exception ''Failed to get a message of type command ack after 1 attempts''),
             \<lparr>rx_pending = map Rx [0xFD, 0xFC, 0xFB, 0xFA, 0x02, 0x00, 0xFE, 0x00, 0x04, 0x03, 0x02, 0x01],
              tx_written = [], timeout = 2\<rparr>)"
    using rx_sequence_first_matching_frame [OF h p, where retries = 1 and tmo = 2
        and port = ?port
        and rest = "map Rx [0xFD, 0xFC, 0xFB, 0xFA, 0x02, 0x00, 0xFE, 0x00, 0x04, 0x03, 0x02, 0x01]",
        THEN conjunct2]
    by (simp add: REPORTING_PREAMBLE_def REPORTING_POSTAMBLE_def numeral_2_eq_2 str_nat_1)
  from a b show ?thesis by simp
qed


subsection \<open>The length of a report payload\<close>

lemma rx_sequence_report_frame:
  assumes "length seq < 65536"
  shows "rx_sequence True 1 2
           (port\<lparr>rx_pending := map Rx (frame_bytes (REPORTING_PREAMBLE, seq, REPORTING_POSTAMBLE)) @ rest\<rparr>)
         = Some (Inr seq, port\<lparr>timeout := 2, rx_pending := rest\<rparr>)"
proof -
  have w: "well_formed (REPORTING_PREAMBLE, seq, REPORTING_POSTAMBLE)"
    using assms by (simp add: REPORTING_POSTAMBLE_def)
  have m: "kind_matches True (REPORTING_PREAMBLE, seq, REPORTING_POSTAMBLE)"
    by (simp add: expected_preamble_def expected_postamble_def)
  show ?thesis
    using rx_sequence_for_right_kind [OF w m, where port = "port\<lparr>timeout := 2\<rparr>" and n = "Suc 0" and k = 0
        and rest = rest]
    by (simp add: rx_sequence_def timeout_before_rx_pending)
qed

lemma get_next_reading_timeout:
  "get_next_reading now (port\<lparr>timeout := 2\<rparr>) = get_next_reading now port"
  by (subst (1 2) get_next_reading.simps) (simp add: rx_sequence_def)

lemma get_next_reading_report_frame:
  assumes "length seq < 65536"
  shows "get_next_reading now
           (port\<lparr>rx_pending := map Rx (frame_bytes (REPORTING_PREAMBLE, seq, REPORTING_POSTAMBLE)) @ rest\<rparr>)
         = (if length seq = 35 then Some (new_from_bytes now seq, port\<lparr>timeout := 2, rx_pending := rest\<rparr>)
            else get_next_reading now (port\<lparr>timeout := 2, rx_pending := rest\<rparr>))"
  by (subst get_next_reading.simps)
    (simp only: rx_sequence_report_frame [OF assms] option.case prod.case sum.case)

lemma get_next_reading_drops:
  assumes "\<forall>p\<in>set dropped. length p \<noteq> 35 \<and> length p < 65536"
  shows "get_next_reading now
           (port\<lparr>rx_pending :=
              map Rx (concat (map (\<lambda>p. frame_bytes (REPORTING_PREAMBLE, p, REPORTING_POSTAMBLE)) dropped))
              @ rest\<rparr>)
         = get_next_reading now (port\<lparr>rx_pending := rest\<rparr>)"
  using assms
proof (induction dropped arbitrary: port)
  case Nil
  then show ?case by simp
next
  case (Cons p dropped)
  let ?tail = "map Rx (concat (map (\<lambda>p. frame_bytes (REPORTING_PREAMBLE, p, REPORTING_POSTAMBLE)) dropped)) @ rest"
  have l: "length p < 65536" and n: "length p \<noteq> 35"
    using Cons.prems by simp_all
  have "get_next_reading now
          (port\<lparr>rx_pending := map Rx (frame_bytes (REPORTING_PREAMBLE, p, REPORTING_POSTAMBLE)) @ ?tail\<rparr>)
        = get_next_reading now (port\<lparr>timeout := 2, rx_pending := ?tail\<rparr>)"
    using get_next_reading_report_frame [OF l, where port = port and rest = ?tail and now = now] n
    by simp
  also have "\<dots> = get_next_reading now (port\<lparr>timeout := 2, rx_pending := rest\<rparr>)"
    using Cons.IH [where port = "port\<lparr>timeout := 2\<rparr>"] Cons.prems by simp
  also have "\<dots> = get_next_reading now (port\<lparr>rx_pending := rest\<rparr>)"
    using get_next_reading_timeout [where port = "port\<lparr>rx_pending := rest\<rparr>" and now = now]
    by (simp add: timeout_before_rx_pending)
  finally show ?case by simp
qed

lemma get_next_reading_decodes_35:
  assumes "get_next_reading now port = Some y"
  shows "\<forall>rd port'. y = (Inr rd, port') \<longrightarrow>
           (\<exists>seq. length seq = 35 \<and> new_from_bytes now seq = Inr rd)"
proof (rule get_next_reading.raw_induct
    [where P = "\<lambda>now _ y. \<forall>rd port'. y = (Inr rd, port') \<longrightarrow>
           (\<exists>seq. length seq = 35 \<and> new_from_bytes now seq = Inr rd)",
      OF _ assms])
  fix loop :: "datetime \<Rightarrow> serial_port \<Rightarrow> ((error + reading) \<times> serial_port) option"
    and now port y
  assume ih: "\<And>now port y. loop now port = Some y \<Longrightarrow>
      \<forall>rd port'. y = (Inr rd, port') \<longrightarrow>
           (\<exists>seq. length seq = 35 \<and> new_from_bytes now seq = Inr rd)"
    and body: "(case rx_sequence True 1 2 port of None \<Rightarrow> None
      | Some (Inl e, port') \<Rightarrow> Some (Inl e, port')
      | Some (Inr seq, port') \<Rightarrow>
          if length seq = 35 then Some (new_from_bytes now seq, port')
          else loop now port') = Some y"
  show "\<forall>rd port'. y = (Inr rd, port') \<longrightarrow>
           (\<exists>seq. length seq = 35 \<and> new_from_bytes now seq = Inr rd)"
  proof (cases "rx_sequence True 1 2 port")
    case None
    with body show ?thesis by simp
  next
    case (Some r)
    obtain res port1 where r: "r = (res, port1)"
      by (cases r) auto
    show ?thesis
    proof (cases res)
      case (Inl e)
      with body Some r show ?thesis by auto
    next
      case (Inr seq)
      show ?thesis
      proof (cases "length seq = 35")
        case True
        with body Some r Inr have "y = (new_from_bytes now seq, port1)"
          by simp
        with True show ?thesis by auto
      next
        case False
        with body Some r Inr have "loop now port1 = Some y"
          by simp
        then show ?thesis by (rule ih)
      qed
    qed
  qed
qed

text \<open>
  C7, amended. A byte sequence shorter than 35 bytes makes \<open>Reading.new_from_bytes\<close>
  raise (an \<open>IndexError\<close>) rather than return a Reading; a sequence of 35 bytes
  or more yields a Reading, the one of its first 35 bytes. The test of the length
  is in \<open>_get_next_reading\<close>: report frames whose payload is not 35 bytes long are
  dropped without an exception and the next report is read, so the first report
  with a 35-byte payload is the one decoded, and every Reading that
  \<open>_get_next_reading\<close> returns is decoded from a payload of exactly 35 bytes.
\<close>

theorem reading_length_gate:
  "(length short < 35 \<longrightarrow> new_from_bytes now short = Inl IndexError)
   \<and> (35 \<le> length long \<longrightarrow>
        (\<exists>rd. new_from_bytes now long = Inr rd)
        \<and> new_from_bytes now long = new_from_bytes now (take 35 long))
   \<and> ((\<forall>p\<in>set dropped. length p \<noteq> 35 \<and> length p < 65536) \<and> length seq = 35 \<longrightarrow>
        get_next_reading now
          (port\<lparr>rx_pending :=
             map Rx (concat (map (\<lambda>p. frame_bytes (REPORTING_PREAMBLE, p, REPORTING_POSTAMBLE)) dropped)
                     @ frame_bytes (REPORTING_PREAMBLE, seq, REPORTING_POSTAMBLE)) @ rest\<rparr>)
        = Some (new_from_bytes now seq, port\<lparr>rx_pending := rest, timeout := 2\<rparr>))
   \<and> (get_next_reading now line = Some (Inr rd, line') \<longrightarrow>
        (\<exists>payload. length payload = 35 \<and> new_from_bytes now payload = Inr rd))"
proof (intro conjI impI)
  assume "length short < 35"
  then show "new_from_bytes now short = Inl IndexError"
    by (rule new_from_bytes_short)
next
  assume l: "35 \<le> length long"
  show "\<exists>rd. new_from_bytes now long = Inr rd"
    using new_from_bytes_long [OF l] by blast
  show "new_from_bytes now long = new_from_bytes now (take 35 long)"
    using l by (rule new_from_bytes_take)
next
  assume a: "(\<forall>p\<in>set dropped. length p \<noteq> 35 \<and> length p < 65536) \<and> length seq = 35"
  let ?good = "map Rx (frame_bytes (REPORTING_PREAMBLE, seq, REPORTING_POSTAMBLE)) @ rest"
  have s: "length seq < 65536"
    using a by simp
  have "get_next_reading now
          (port\<lparr>rx_pending :=
             map Rx (concat (map (\<lambda>p. frame_bytes (REPORTING_PREAMBLE, p, REPORTING_POSTAMBLE)) dropped))
             @ ?good\<rparr>)
        = get_next_reading now (port\<lparr>rx_pending := ?good\<rparr>)"
    using a by (intro get_next_reading_drops) simp
  also have "\<dots> = Some (new_from_bytes now seq, port\<lparr>timeout := 2, rx_pending := rest\<rparr>)"
    using get_next_reading_report_frame [OF s, where port = port and rest = rest and now = now] a
    by simp
  finally show "get_next_reading now
          (port\<lparr>rx_pending :=
             map Rx (concat (map (\<lambda>p. frame_bytes (REPORTING_PREAMBLE, p, REPORTING_POSTAMBLE)) dropped)
                     @ frame_bytes (REPORTING_PREAMBLE, seq, REPORTING_POSTAMBLE)) @ rest\<rparr>)
        = Some (new_from_bytes now seq, port\<lparr>rx_pending := rest, timeout := 2\<rparr>)"
    by (simp add: timeout_before_rx_pending)
next
  assume "get_next_reading now line = Some (Inr rd, line')"
  then show "\<exists>payload. length payload = 35 \<and> new_from_bytes now payload = Inr rd"
    using get_next_reading_decodes_35 [of now line "(Inr rd, line')"] by simp
qed

text \<open>
  C7, as stated, for every length other than 35: a sequence of 36 bytes does not
  make \<open>Reading.new_from_bytes\<close> fail; it yields a Reading.
\<close>

theorem reading_length_gate_counterexample:
  "length (replicate 36 (0x01 :: byte)) \<noteq> 35
   \<and> new_from_bytes 0 (replicate 36 0x01)
     = Inr \<lparr> timestamp = 0, moving = replicate 12 1, static = replicate 12 1, target_state = 1,
             moving_target_range = 257, moving_target_energy = 1,
             static_target_range = 257, static_target_energy = 1,
             detection_distance = 257, max_moving_distance = 1, max_static_distance = 1 \<rparr>"
  by code_simp

text \<open>
  C7, amended, at sequences of 34 and 36 bytes, and on a line that carries a report
  with a 1-byte payload followed by a report with a 35-byte payload.
\<close>

theorem reading_length_gate_witness:
  "new_from_bytes 0 (replicate 34 0x01) = Inl IndexError
   \<and> new_from_bytes 0 (replicate 36 0x01) = new_from_bytes 0 (take 35 (replicate 36 0x01))
   \<and> get_next_reading 0
        \<lparr>rx_pending =
           map Rx ([0xF4, 0xF3, 0xF2, 0xF1, 0x01, 0x00, 0x07, 0xF8, 0xF7, 0xF6, 0xF5]
                   @ [0xF4, 0xF3, 0xF2, 0xF1, 0x23, 0x00]
                   @ [0x00, 0x32, 0x00, 0x4B, 0x1E, 0x00, 0x64, 0x00, 0xC8, 0x00, 0x0A]
                   @ replicate 24 0x00
                   @ [0xF8, 0xF7, 0xF6, 0xF5]),
         tx_written = [], timeout = 0\<rparr>
     = Some (Inr \<lparr> timestamp = 0, moving = replicate 12 0, static = replicate 12 0,
                    target_state = 0, moving_target_range = 50, moving_target_energy = 75,
                    static_target_range = 30, static_target_energy = 100,
                    detection_distance = 51200, max_moving_distance = 0,
                    max_static_distance = 10 \<rparr>,
             \<lparr>rx_pending = [], tx_written = [], timeout = 2\<rparr>)
   \<and> (\<exists>payload. length payload = 35 \<and>
        new_from_bytes 0 payload
          = Inr \<lparr> timestamp = 0, moving = replicate 12 0, static = replicate 12 0,
                  target_state = 0, moving_target_range = 50, moving_target_energy = 75,
                  static_target_range = 30, static_target_energy = 100,
                  detection_distance = 51200, max_moving_distance = 0,
                  max_static_distance = 10 \<rparr>)"
proof -
  let ?port = "\<lparr>rx_pending = [], tx_written = [], timeout = 0\<rparr>"
  let ?P = "[0x00, 0x32, 0x00, 0x4B, 0x1E, 0x00, 0x64, 0x00, 0xC8, 0x00, 0x0A] @ replicate 24 0x00 :: byte list"
  let ?R = "\<lparr> timestamp = 0, moving = replicate 12 0, static = replicate 12 0,
                  target_state = 0, moving_target_range = 50, moving_target_energy = 75,
                  static_target_range = 30, static_target_energy = 100,
                  detection_distance = 51200, max_moving_distance = 0,
                  max_static_distance = 10 \<rparr>"
  let ?line = "\<lparr>rx_pending =
           map Rx ([0xF4, 0xF3, 0xF2, 0xF1, 0x01, 0x00, 0x07, 0xF8, 0xF7, 0xF6, 0xF5]
                   @ [0xF4, 0xF3, 0xF2, 0xF1, 0x23, 0x00] @ ?P @ [0xF8, 0xF7, 0xF6, 0xF5]),
         tx_written = [], timeout = 0\<rparr>"
  note g = reading_length_gate [where now = 0 and short = "replicate 34 0x01"
      and long = "replicate 36 0x01" and dropped = "[[0x07]]" and seq = ?P
      and port = ?port and rest = "[]" and line = ?line and rd = ?R
      and line' = "\<lparr>rx_pending = [], tx_written = [], timeout = 2\<rparr>"]
  have d: "new_from_bytes 0 ?P = Inr ?R"
    by code_simp
  have w1: "new_from_bytes 0 (replicate 34 0x01) = Inl IndexError"
    using g [THEN conjunct1] by simp
  have w2: "new_from_bytes 0 (replicate 36 0x01) = new_from_bytes 0 (take 35 (replicate 36 0x01))"
    using g [THEN conjunct2, THEN conjunct1] by simp
  have h3: "(\<forall>p\<in>set [[0x07 :: byte]]. length p \<noteq> 35 \<and> length p < 65536) \<and> length ?P = 35"
    by simp
  have w3: "get_next_reading 0 ?line
              = Some (Inr ?R, \<lparr>rx_pending = [], tx_written = [], timeout = 2\<rparr>)"
    using g [THEN conjunct2, THEN conjunct2, THEN conjunct1, rule_format, OF h3] d
    by (simp add: REPORTING_PREAMBLE_def REPORTING_POSTAMBLE_def numeral_2_eq_2)
  have w4: "\<exists>payload. length payload = 35 \<and> new_from_bytes 0 payload = Inr ?R"
    using g [THEN conjunct2, THEN conjunct2, THEN conjunct2] w3 by simp
  from w1 w2 w3 w4 show ?thesis by simp
qed


subsection \<open>The handshake\<close>

text \<open>Receiving writes nothing: what has been written to the port is left as it is.\<close>

lemma tx_written_serial_read [simp]: "tx_written (snd (serial_read n port)) = tx_written port"
  by (simp add: serial_read_def)

lemma preamble_loop_tx_written:
  assumes "preamble_loop st port = Some y"
  shows "tx_written (snd y) = tx_written port"
proof (rule preamble_loop.raw_induct [where P = "\<lambda>_ port y. tx_written (snd y) = tx_written port",
      OF _ assms])
  fix loop :: "scanner \<Rightarrow> serial_port \<Rightarrow> ((error + byte list) \<times> serial_port) option"
    and st port y
  assume ih: "\<And>st port y. loop st port = Some y \<Longrightarrow> tx_written (snd y) = tx_written port"
    and body: "(if length (fst (serial_read 1 port)) = 0 then loop st (snd (serial_read 1 port))
      else case preamble_step (fst (serial_read 1 port) ! 0) st of
           Next st' \<Rightarrow> loop st' (snd (serial_read 1 port))
           | Break st' \<Rightarrow> Some (Inr (preamble st'), snd (serial_read 1 port))
           | Raise e \<Rightarrow> Some (Inl e, snd (serial_read 1 port))) = Some y"
  show "tx_written (snd y) = tx_written port"
  proof (cases "length (fst (serial_read 1 port)) = 0")
    case True
    with body have "loop st (snd (serial_read 1 port)) = Some y"
      by simp
    then have "tx_written (snd y) = tx_written (snd (serial_read 1 port))"
      by (rule ih)
    then show ?thesis by simp
  next
    case False
    show ?thesis
    proof (cases "preamble_step (fst (serial_read 1 port) ! 0) st")
      case (Next st')
      with body False have "loop st' (snd (serial_read 1 port)) = Some y"
        by simp
      then have "tx_written (snd y) = tx_written (snd (serial_read 1 port))"
        by (rule ih)
      then show ?thesis by simp
    next
      case (Break st')
      with body False show ?thesis by auto
    next
      case (Raise e)
      with body False show ?thesis by auto
    qed
  qed
qed

lemma read_frame_rest_tx_written:
  "tx_written (snd (read_frame_rest pre port)) = tx_written port"
  by (simp add: read_frame_rest_def read_bytes_def serial_read_def Let_def split: prod.split)

lemma read_any_message_tx_written:
  assumes "read_any_message port = Some y"
  shows "tx_written (snd y) = tx_written port"
proof (cases "preamble_loop initial_scanner port")
  case None
  with assms show ?thesis by (simp add: read_any_message_def)
next
  case (Some r)
  obtain res port1 where r: "r = (res, port1)"
    by (cases r) auto
  have t: "tx_written port1 = tx_written port"
    using preamble_loop_tx_written [OF Some] r by simp
  show ?thesis
  proof (cases res)
    case (Inl e)
    with assms Some r t show ?thesis by (auto simp: read_any_message_def)
  next
    case (Inr pre)
    with assms Some r have "y = read_frame_rest pre port1"
      by (simp add: read_any_message_def)
    with t show ?thesis by (simp add: read_frame_rest_tx_written)
  qed
qed

lemma rx_sequence_for_tx_written:
  "rx_sequence_for r n k port = Some y \<Longrightarrow> tx_written (snd y) = tx_written port"
proof (induction k arbitrary: port)
  case 0
  then show ?case by auto
next
  case (Suc k)
  show ?case
  proof (cases "read_any_message port")
    case None
    with Suc.prems show ?thesis by simp
  next
    case (Some m)
    obtain res port1 where m: "m = (res, port1)"
      by (cases m) auto
    have t: "tx_written port1 = tx_written port"
      using read_any_message_tx_written [OF Some] m by simp
    show ?thesis
    proof (cases res)
      case (Inl e)
      with Suc.prems Some m t show ?thesis by auto
    next
      case (Inr f)
      obtain pre payload post where f: "f = (pre, payload, post)"
        by (cases f) auto
      show ?thesis
      proof (cases "kind_matches r f")
        case True
        with Suc.prems Some m Inr f t show ?thesis by auto
      next
        case False
        with Suc.prems Some m Inr f have "rx_sequence_for r n k port1 = Some y"
          by auto
        then have "tx_written (snd y) = tx_written port1"
          by (rule Suc.IH)
        with t show ?thesis by simp
      qed
    qed
  qed
qed

lemma rx_sequence_tx_written:
  "rx_sequence r n tmo port = Some y \<Longrightarrow> tx_written (snd y) = tx_written port"
  using rx_sequence_for_tx_written [of r n n "port\<lparr>timeout := tmo\<rparr>" y]
  by (simp add: rx_sequence_def)

lemma enter_command_written:
  "tx_sequence (Ints [0xFF, 0x00, 0x01, 0x00]) port
     = (Inr (), port\<lparr>tx_written := tx_written port
          @ [0xFD, 0xFC, 0xFB, 0xFA, 0x04, 0x00, 0xFF, 0x00, 0x01, 0x00, 0x04, 0x03, 0x02, 0x01]\<rparr>)"
proof -
  have r: "\<forall>x\<in>set [0xFF, 0x00, 0x01, 0x00 :: int]. 0 \<le> x \<and> x \<le> 255"
    by simp
  have "list_ints_to_bytes [0xFF, 0x00, 0x01, 0x00] = Inr [0xFF, 0x00, 0x01, 0x00]"
    using list_ints_to_bytes_in_range [OF r] by simp
  then show ?thesis
    by (simp add: tx_sequence_def to_bytes_def serial_write_def COMMAND_PREAMBLE_def
        COMMAND_POSTAMBLE_def numeral_2_eq_2)
qed

lemma enter_ack_bytes:
  "list_ints_to_bytes [0xFF, 0x01, 0x00, 0x00, 0x01, 0x00, 0x40, 0x00]
     = Inr [0xFF, 0x01, 0x00, 0x00, 0x01, 0x00, 0x40, 0x00]"
proof -
  have r: "\<forall>x\<in>set [0xFF, 0x01, 0x00, 0x00, 0x01, 0x00, 0x40, 0x00 :: int]. 0 \<le> x \<and> x \<le> 255"
    by simp
  show ?thesis
    using list_ints_to_bytes_in_range [OF r] by simp
qed

text \<open>
  C4. If the first step of the handshake, \<open>_enter_configuration_mode\<close>, receives
  an acknowledgement payload other than \<open>FF 01 00 00 01 00 40 00\<close>, it raises the
  \<open>LD2410Exception\<close> for the missing acknowledgement, and the handshake ends
  there with that exception: the only bytes written to the port are the frame of
  the enter-configuration command, so no later step (reset, second enter, firmware
  query, engineering mode, leave) has run, and \<open>run\<close> ends with the exception
  before its reporting loop, the buffer left as it was.
\<close>

theorem handshake_stops_at_wrong_ack:
  assumes "rx_sequence False 10 2 (snd (tx_sequence (Ints [0xFF, 0x00, 0x01, 0x00]) port))
             = Some (Inr resp, port')"
    and "resp \<noteq> [0xFF, 0x01, 0x00, 0x00, 0x01, 0x00, 0x40, 0x00]"
  shows "enter_configuration_mode port
           = Some (Inl (LD2410Exception ''Failed to get ack to entering config mode''), port')
       \<and> handshake buffered port
           = Some (Inl (LD2410Exception ''Failed to get ack to entering config mode''), port')
       \<and> tx_written port' = tx_written port
           @ [0xFD, 0xFC, 0xFB, 0xFA, 0x04, 0x00, 0xFF, 0x00, 0x01, 0x00, 0x04, 0x03, 0x02, 0x01]
       \<and> run buffered clock (self\<lparr>serial := port\<rparr>)
           = Some (Inl (LD2410Exception ''Failed to get ack to entering config mode''),
                   self\<lparr>running := True, stopped := False, serial := port'\<rparr>)"
proof -
  let ?e = "LD2410Exception ''Failed to get ack to entering config mode''"
  let ?port1 = "port\<lparr>tx_written := tx_written port
          @ [0xFD, 0xFC, 0xFB, 0xFA, 0x04, 0x00, 0xFF, 0x00, 0x01, 0x00, 0x04, 0x03, 0x02, 0x01]\<rparr>"
  have rx: "rx_sequence False 10 2 ?port1 = Some (Inr resp, port')"
    using assms(1) by (simp add: enter_command_written)
  have e: "enter_configuration_mode port = Some (Inl ?e, port')"
    using rx assms(2)
    by (simp add: enter_configuration_mode_def command_ack_def enter_command_written enter_ack_bytes)
  then have h: "handshake buffered port = Some (Inl ?e, port')"
    by (simp add: handshake_def and_then_def)
  have t: "tx_written port' = tx_written ?port1"
    using rx_sequence_tx_written [OF rx] by simp
  have r: "run buffered clock (self\<lparr>serial := port\<rparr>)
           = Some (Inl ?e, self\<lparr>running := True, stopped := False, serial := port'\<rparr>)"
    using h by (simp add: run_def)
  from e h t r show ?thesis by simp
qed

text \<open>
  C4, on a line that answers the first command with the payload \<open>FF 01 01 00\<close>
  and then carries the acknowledgement of a reset: the handshake raises, only the
  first command has been written, and the second frame is still unread.
\<close>

theorem handshake_stops_at_wrong_ack_witness:
  "handshake 0
     \<lparr>rx_pending = map Rx [0xFD, 0xFC, 0xFB, 0xFA, 0x04, 0x00, 0xFF, 0x01, 0x01, 0x00, 0x04, 0x03, 0x02, 0x01]
                    @ map Rx [0xFD, 0xFC, 0xFB, 0xFA, 0x04, 0x00, 0xA3, 0x01, 0x00, 0x00, 0x04, 0x03, 0x02, 0x01],
      tx_written = [], timeout = 0\<rparr>
     = Some (Inl (LD2410Exception ''Failed to get ack to entering config mode''),
             \<lparr>rx_pending = map Rx [0xFD, 0xFC, 0xFB, 0xFA, 0x04, 0x00, 0xA3, 0x01, 0x00, 0x00, 0x04, 0x03, 0x02, 0x01],
              tx_written = [0xFD, 0xFC, 0xFB, 0xFA, 0x04, 0x00, 0xFF, 0x00, 0x01, 0x00, 0x04, 0x03, 0x02, 0x01],
              timeout = 2\<rparr>)
   \<and> run 0 [1, 2, 3]
       \<lparr>thresholds_set = None, running = False, stopped = True, buffer = deque_new 50,
        serial = \<lparr>rx_pending = map Rx [0xFD, 0xFC, 0xFB, 0xFA, 0x04, 0x00, 0xFF, 0x01, 0x01, 0x00, 0x04, 0x03, 0x02, 0x01]
                    @ map Rx [0xFD, 0xFC, 0xFB, 0xFA, 0x04, 0x00, 0xA3, 0x01, 0x00, 0x00, 0x04, 0x03, 0x02, 0x01],
                  tx_written = [], timeout = 0\<rparr>,
        present = None\<rparr>
     = Some (Inl (LD2410Exception ''Failed to get ack to entering config mode''),
             \<lparr>thresholds_set = None, running = True, stopped = False, buffer = deque_new 50,
              serial = \<lparr>rx_pending = map Rx [0xFD, 0xFC, 0xFB, 0xFA, 0x04, 0x00, 0xA3, 0x01, 0x00, 0x00, 0x04, 0x03, 0x02, 0x01],
                        tx_written = [0xFD, 0xFC, 0xFB, 0xFA, 0x04, 0x00, 0xFF, 0x00, 0x01, 0x00, 0x04, 0x03, 0x02, 0x01],
                        timeout = 2\<rparr>,
              present = None\<rparr>)"
proof -
  let ?port = "\<lparr>rx_pending = map Rx [0xFD, 0xFC, 0xFB, 0xFA, 0x04, 0x00, 0xFF, 0x01, 0x01, 0x00, 0x04, 0x03, 0x02, 0x01]
                    @ map Rx [0xFD, 0xFC, 0xFB, 0xFA, 0x04, 0x00, 0xA3, 0x01, 0x00, 0x00, 0x04, 0x03, 0x02, 0x01],
      tx_written = [], timeout = 0\<rparr>"
  let ?port' = "\<lparr>rx_pending = map Rx [0xFD, 0xFC, 0xFB, 0xFA, 0x04, 0x00, 0xA3, 0x01, 0x00, 0x00, 0x04, 0x03, 0x02, 0x01],
              tx_written = [0xFD, 0xFC, 0xFB, 0xFA, 0x04, 0x00, 0xFF, 0x00, 0x01, 0x00, 0x04, 0x03, 0x02, 0x01],
              timeout = 2\<rparr>"
  let ?self = "\<lparr>thresholds_set = None, running = False, stopped = True,
                 buffer = deque_new 50 :: reading deque, serial = ?port, present = None\<rparr>"
  have a: "rx_sequence False 10 2 (snd (tx_sequence (Ints [0xFF, 0x00, 0x01, 0x00]) ?port))
             = Some (Inr [0xFF, 0x01, 0x01, 0x00], ?port')"
    by code_simp
  have b: "[0xFF, 0x01, 0x01, 0x00] \<noteq> [0xFF, 0x01, 0x00, 0x00, 0x01, 0x00, 0x40, 0x00 :: byte]"
    by simp
  note w = handshake_stops_at_wrong_ack [OF a b, where buffered = 0 and clock = "[1, 2, 3]"
      and self = ?self]
  have h: "handshake 0 ?port
             = Some (Inl (LD2410Exception ''Failed to get ack to entering config mode''), ?port')"
    using w [THEN conjunct2, THEN conjunct1] .
  have r: "run 0 [1, 2, 3] ?self
             = Some (Inl (LD2410Exception ''Failed to get ack to entering config mode''),
                     ?self\<lparr>running := True, stopped := False, serial := ?port'\<rparr>)"
    using w [THEN conjunct2, THEN conjunct2, THEN conjunct2] by simp
  from h r show ?thesis by simp
qed


end
